theory Spec2Isabelle
  imports Complex_Main
begin

section \<open>Numbers, errors and parameters\<close>

text \<open>
  The program is a Python script on IEEE doubles. It is embedded twice. The arrays, the loop
  and the selection are embedded with a finite double idealised as a \<^typ>\<open>real\<close>: the values
  they hold are what the external solver returns, and the statements about them do not
  depend on roundings. The steady-state block (lines 114-117) and the residuals
  (lines 155-157) are also embedded in double arithmetic, with every operation rounded to
  nearest, ties to even (section \<open>Double arithmetic\<close>): what they return and when they raise
  is stated there. In both embeddings a division by zero is modelled explicitly:
  \<^item> a division of two Python floats by zero raises \<^verbatim>\<open>ZeroDivisionError\<close>
    (the steady-state block, lines 114-117, works on Python floats only);
  \<^item> a division that involves a NumPy scalar returns \<^verbatim>\<open>inf\<close> or \<^verbatim>\<open>nan\<close> with a warning and
    raises nothing (the residual function \<^verbatim>\<open>f\<close> and the score, lines 156 and 168).
\<close>

datatype error = ZeroDivisionError | IndexError | ValueError

text \<open>
  The parameter block of the script (lines 104-110): \<^verbatim>\<open>R\<close>, \<^verbatim>\<open>\<lambda>\<close>, \<^verbatim>\<open>\<eta>\<close>, \<^verbatim>\<open>a\<close>, \<^verbatim>\<open>\<Delta>a\<close>,
  \<^verbatim>\<open>\<pi>\<close>, \<^verbatim>\<open>\<phi>\<close>. The constant \<^verbatim>\<open>c = 1.0\<close> of line 111 is never read and is left out.
\<close>

record params =
  par_R :: real
  par_lam :: real
  par_eta :: real
  par_a :: real
  par_Da :: real
  par_pi :: real
  par_phi :: real

definition ref_params :: params where
  "ref_params = \<lparr>par_R = 101 / 100, par_lam = 975 / 1000, par_eta = 10 / 100, par_a = 1,
     par_Da = 1 / 100, par_pi = 1 / 10, par_phi = 20\<rparr>"

text \<open>
  Lines 98 and 101. The functions below take the number of periods and the number of trials
  as arguments \<open>np\<close> and \<open>nt\<close>; the script is \<open>main\<close>, with these two values.
\<close>

definition periods :: nat where
  "periods = 100 + 1"

definition trials :: nat where
  "trials = 1000"

text \<open>An exception ends the computation: the rest runs only on a value.\<close>

definition bind_err :: "error + 'a \<Rightarrow> ('a \<Rightarrow> error + 'b) \<Rightarrow> error + 'b" where
  "bind_err m k = (case m of Inl e \<Rightarrow> Inl e | Inr x \<Rightarrow> k x)"

text \<open>Division of two Python floats.\<close>

definition py_div :: "real \<Rightarrow> real \<Rightarrow> error + real" where
  "py_div x y = (if y = 0 then Inl ZeroDivisionError else Inr (x / y))"

section \<open>Steady state (lines 114-117)\<close>

record steady =
  q_star :: real
  nu :: real
  K_star :: real
  B_star :: real

text \<open>Numerator and denominator of the second factor of \<^verbatim>\<open>q_star\<close>.\<close>

definition ss_num :: "params \<Rightarrow> real" where
  "ss_num p = par_pi p * par_a p - (1 - par_lam p) * (1 - par_R p + par_pi p * par_R p) * par_phi p"

definition ss_den :: "params \<Rightarrow> real" where
  "ss_den p = par_lam p * par_pi p + (1 - par_lam p) * (1 - par_R p + par_pi p * par_R p)"

text \<open>
  The four assignments in the order the script evaluates them; each division is a Python
  float division and can raise.
\<close>

definition steady_state :: "params \<Rightarrow> error + steady" where
  "steady_state p =
     bind_err (py_div (par_R p) (par_R p - 1)) (\<lambda>r1.
     bind_err (py_div (r1 * ss_num p) (ss_den p)) (\<lambda>qs.
     bind_err (py_div (par_R p - 1) (par_R p)) (\<lambda>r2.
     bind_err (py_div qs (par_eta p)) (\<lambda>r3.
       (let v = r2 * r3 in
     bind_err (py_div (par_R p - 1) (par_R p)) (\<lambda>r4.
       (let Ks = r4 * qs + v in
     bind_err (py_div 1 (par_R p - 1)) (\<lambda>r5.
       Inr \<lparr>q_star = qs, nu = v, K_star = Ks,
            B_star = r5 * (par_a p - par_phi p + par_lam p * par_phi p) * Ks\<rparr>))))))))"

text \<open>The steady state of the script's own parameters, as exact fractions.\<close>

definition ref_steady :: steady where
  "ref_steady = \<lparr>q_star = 220180 / 3991, nu = 21800 / 3991, K_star = 23980 / 3991,
     B_star = 1199000 / 3991\<rparr>"

text \<open>
  Parameters whose steady state is defined and satisfies \<open>q* > 0\<close> and \<open>K* > \<nu>\<close>, and for
  which the divisor of the second residual vanishes at the steady state.
\<close>

definition degenerate_params :: params where
  "degenerate_params = \<lparr>par_R = 2, par_lam = 1 / 2, par_eta = 1 / 2, par_a = 1,
     par_Da = 1 / 100, par_pi = 1 / 2, par_phi = - 2\<rparr>"

text \<open>The steady state for \<open>\<phi> = 50\<close> and the other parameters of the script: a negative price.\<close>

definition neg_price_steady :: steady where
  "neg_price_steady = \<lparr>q_star = - 55550 / 3991, nu = - 5500 / 3991, K_star = - 6050 / 3991,
     B_star = 151250 / 3991\<rparr>"

section \<open>The per-period system (lines 153-158)\<close>

type_synonym vec3 = "real \<times> real \<times> real"

text \<open>
  The three residuals of \<^verbatim>\<open>f\<close>. The closure reads \<^verbatim>\<open>q_mat[s, t]\<close>, \<^verbatim>\<open>K_mat[s, t-1]\<close>,
  \<^verbatim>\<open>B_mat[s, t-1]\<close> and \<^verbatim>\<open>\<Delta>t[t]\<close>, which do not change while it is in use; here they are
  the arguments \<open>q_t\<close>, \<open>K_prev\<close>, \<open>B_prev\<close> and \<open>d\<close>. The second residual divides by a NumPy
  scalar: where the divisor is zero the quotient is \<^verbatim>\<open>inf\<close> or \<^verbatim>\<open>nan\<close> and so is the residual,
  which is the value \<open>None\<close>. (\<^verbatim>\<open>R\<close> is not zero wherever \<^verbatim>\<open>f\<close> is reached: the steady state has
  been computed.)
\<close>

type_synonym residual = "real \<times> real option \<times> real"

definition first_eq :: "params \<Rightarrow> real \<Rightarrow> real \<Rightarrow> vec3 \<Rightarrow> real" where
  "first_eq p v q_t = (\<lambda>(q_tplus1, K_t, B_t).
     - (q_tplus1 - par_R p * q_t + par_R p * (K_t - v)))"

definition second_eq :: "params \<Rightarrow> real \<Rightarrow> real \<Rightarrow> real \<Rightarrow> real \<Rightarrow> vec3 \<Rightarrow> real option" where
  "second_eq p q_t K_prev B_prev d = (\<lambda>(q_tplus1, K_t, B_t).
     if par_phi p + q_t - (q_tplus1 / par_R p) = 0 then None
     else Some (- (K_t - (1 - par_pi p) * par_lam p * K_prev
       - (par_pi p / (par_phi p + q_t - (q_tplus1 / par_R p)))
         * ((par_a p + d + q_t + par_lam p * par_phi p) * K_prev - par_R p * B_prev))))"

definition third_eq :: "params \<Rightarrow> real \<Rightarrow> real \<Rightarrow> real \<Rightarrow> real \<Rightarrow> vec3 \<Rightarrow> real" where
  "third_eq p q_t K_prev B_prev d = (\<lambda>(q_tplus1, K_t, B_t).
     - (B_t - par_R p * B_prev - q_t * (K_t - K_prev) - par_phi p * (K_t - par_lam p * K_prev)
        + (par_a p + d) * K_prev))"

definition f :: "params \<Rightarrow> real \<Rightarrow> real \<Rightarrow> real \<Rightarrow> real \<Rightarrow> real \<Rightarrow> vec3 \<Rightarrow> residual" where
  "f p v q_t K_prev B_prev d variables =
     (first_eq p v q_t variables, second_eq p q_t K_prev B_prev d variables,
      third_eq p q_t K_prev B_prev d variables)"

text \<open>
  \<^verbatim>\<open>scipy.optimize.fsolve\<close> is outside the repository and is a parameter of the model: a function
  from the residual function and the starting point to the point it returns and its status
  (\<^verbatim>\<open>ier = 1\<close>, a solution was found, or one of the statuses for which \<^verbatim>\<open>fsolve\<close> only warns).
  The script calls it without \<^verbatim>\<open>full_output\<close>, so it receives the point alone.
\<close>

datatype status = Converged | NotConverged

type_synonym solver = "(vec3 \<Rightarrow> residual) \<Rightarrow> vec3 \<Rightarrow> vec3 \<times> status"

section \<open>Arrays (lines 122-148)\<close>

definition zeros :: "nat \<Rightarrow> real list" where
  "zeros n = replicate n 0"

definition zeros2 :: "nat \<Rightarrow> nat \<Rightarrow> real list list" where
  "zeros2 m n = replicate m (zeros n)"

text \<open>
  \<^verbatim>\<open>numpy.linspace(start, stop, num)\<close> with the end point included: \<open>num\<close> samples with the
  step \<open>(stop - start) / (num - 1)\<close>, the last one overwritten with \<open>stop\<close>.
\<close>

definition linspace :: "real \<Rightarrow> real \<Rightarrow> nat \<Rightarrow> real list" where
  "linspace start stop num =
     (if num = 0 then []
      else if num = 1 then [start]
      else (map (\<lambda>i. real i * ((stop - start) / real (num - 1)) + start) [0..<num])
             [num - 1 := stop])"

text \<open>The column assignment \<^verbatim>\<open>m[:, j] = v\<close>.\<close>

definition set_col :: "nat \<Rightarrow> real list \<Rightarrow> real list list \<Rightarrow> real list list" where
  "set_col j v m = map (\<lambda>(row, x). row[j := x]) (zip m v)"

record mats =
  q_mat :: "real list list"
  K_mat :: "real list list"
  B_mat :: "real list list"

definition q_vec_of :: "steady \<Rightarrow> nat \<Rightarrow> real list" where
  "q_vec_of ss n = linspace (q_star ss * (10037 / 10000 - 5 / 10000))
     (q_star ss * (10037 / 10000 + 5 / 10000)) n"

text \<open>
  The matrices before the loop (lines 138-148): zeros, column 1 of \<^verbatim>\<open>q_mat\<close> set to the
  guesses \<open>qv\<close> and column 0 of each matrix set to the steady state. It is the script's
  initialisation for at least two periods and one guess per trial (\<open>length qv = nt\<close>), which
  is how \<open>shooting\<close> calls it; NumPy raises on any other shape.
\<close>

definition init_mats :: "steady \<Rightarrow> nat \<Rightarrow> nat \<Rightarrow> real list \<Rightarrow> mats" where
  "init_mats ss np nt qv =
     \<lparr>q_mat = set_col 0 (linspace (q_star ss) (q_star ss) nt) (set_col 1 qv (zeros2 nt np)),
      K_mat = set_col 0 (linspace (K_star ss) (K_star ss) nt) (zeros2 nt np),
      B_mat = set_col 0 (linspace (B_star ss) (B_star ss) nt) (zeros2 nt np)\<rparr>"

section \<open>The solve loop (lines 151-161)\<close>

text \<open>Line 161: the solved triple goes to \<^verbatim>\<open>q_mat[s, t+1]\<close>, \<^verbatim>\<open>K_mat[s, t]\<close>, \<^verbatim>\<open>B_mat[s, t]\<close>.\<close>

definition store :: "mats \<Rightarrow> nat \<Rightarrow> nat \<Rightarrow> vec3 \<Rightarrow> mats" where
  "store M s t = (\<lambda>(q_tplus1, K_t, B_t).
     M\<lparr>q_mat := (q_mat M)[s := (q_mat M ! s)[t + 1 := q_tplus1]],
       K_mat := (K_mat M)[s := (K_mat M ! s)[t := K_t]],
       B_mat := (B_mat M)[s := (B_mat M ! s)[t := B_t]]\<rparr>)"

text \<open>
  The body of the loop for trial \<open>s\<close> and period \<open>t\<close>. The indices it reads and writes are in
  range for \<open>s < nt\<close> and \<open>1 \<le> t \<le> np - 2\<close>, which is what the two \<^verbatim>\<open>range\<close>s produce.
\<close>

definition solve_step :: "solver \<Rightarrow> params \<Rightarrow> steady \<Rightarrow> real list \<Rightarrow> nat \<Rightarrow> nat \<Rightarrow> mats \<Rightarrow> mats" where
  "solve_step fsolve p ss Dt s t M =
     store M s t
       (fst (fsolve (f p (nu ss) (q_mat M ! s ! t) (K_mat M ! s ! (t - 1))
                       (B_mat M ! s ! (t - 1)) (Dt ! t))
               (q_star ss, K_star ss, B_star ss)))"

definition solve_row :: "solver \<Rightarrow> params \<Rightarrow> steady \<Rightarrow> real list \<Rightarrow> nat \<Rightarrow> nat \<Rightarrow> mats \<Rightarrow> mats" where
  "solve_row fsolve p ss Dt np s M = fold (solve_step fsolve p ss Dt s) [1..<np - 1] M"

definition solve_all :: "solver \<Rightarrow> params \<Rightarrow> steady \<Rightarrow> real list \<Rightarrow> nat \<Rightarrow> nat \<Rightarrow> mats \<Rightarrow> mats" where
  "solve_all fsolve p ss Dt np nt M = fold (solve_row fsolve p ss Dt np) [0..<nt] M"

text \<open>
  The trajectories of all guesses: the matrices after the loop, for the shock schedule \<open>Dt\<close>
  and the guesses \<open>qv\<close>, one per trial.
\<close>

definition simulate :: "solver \<Rightarrow> params \<Rightarrow> steady \<Rightarrow> real list \<Rightarrow> nat \<Rightarrow> nat \<Rightarrow> real list \<Rightarrow> mats" where
  "simulate fsolve p ss Dt np nt qv = solve_all fsolve p ss Dt np nt (init_mats ss np nt qv)"

section \<open>Selection (lines 166-171)\<close>

text \<open>
  A score is a NumPy double that need not be finite: \<^verbatim>\<open>q_mat[i, -1] / q_star\<close> is a NumPy
  division, so a zero \<^verbatim>\<open>q_star\<close> gives \<^verbatim>\<open>inf\<close> or \<^verbatim>\<open>nan\<close>.
\<close>

datatype npfloat = Fin real | PInf | NaN

definition score :: "real \<Rightarrow> real \<Rightarrow> npfloat" where
  "score q_T qs = (if qs = 0 then (if q_T = 0 then NaN else PInf) else Fin \<bar>1 - q_T / qs\<bar>)"

fun np_le :: "npfloat \<Rightarrow> npfloat \<Rightarrow> bool" where
  "np_le (Fin x) (Fin y) = (x \<le> y)"
| "np_le (Fin x) PInf = True"
| "np_le PInf PInf = True"
| "np_le _ _ = False"

text \<open>\<^verbatim>\<open>==\<close> on doubles: \<^verbatim>\<open>nan\<close> equals nothing.\<close>

definition np_eq :: "npfloat \<Rightarrow> npfloat \<Rightarrow> bool" where
  "np_eq x y = (x \<noteq> NaN \<and> y \<noteq> NaN \<and> x = y)"

text \<open>\<^verbatim>\<open>numpy.min\<close>: \<^verbatim>\<open>nan\<close> if an entry is \<^verbatim>\<open>nan\<close>, and a \<^verbatim>\<open>ValueError\<close> on an empty array.\<close>

definition np_min2 :: "npfloat \<Rightarrow> npfloat \<Rightarrow> npfloat" where
  "np_min2 x y = (if x = NaN \<or> y = NaN then NaN else if np_le x y then x else y)"

definition np_min :: "npfloat list \<Rightarrow> error + npfloat" where
  "np_min v = (case v of [] \<Rightarrow> Inl ValueError | x # rest \<Rightarrow> Inr (fold np_min2 rest x))"

text \<open>\<^verbatim>\<open>numpy.argwhere\<close> on a vector of booleans: the indices of the true entries, ascending.\<close>

definition argwhere :: "bool list \<Rightarrow> nat list" where
  "argwhere bs = filter (\<lambda>i. bs ! i) [0..<length bs]"

text \<open>Line 171; the subscript \<^verbatim>\<open>[0, 0]\<close> raises \<^verbatim>\<open>IndexError\<close> when no entry matches.\<close>

definition select_index :: "npfloat list \<Rightarrow> error + nat" where
  "select_index v =
     bind_err (np_min v) (\<lambda>m.
       (case argwhere (map (\<lambda>x. np_eq x m) v) of [] \<Rightarrow> Inl IndexError | i # _ \<Rightarrow> Inr i))"

section \<open>The script\<close>

record outcome =
  index :: nat
  q_vec :: "real list"
  q_vec_abs :: "npfloat list"
  final :: mats

text \<open>Lines 166-172: the scores of the terminal prices and the selected index.\<close>

definition select_best :: "steady \<Rightarrow> nat \<Rightarrow> nat \<Rightarrow> mats \<Rightarrow> error + outcome" where
  "select_best ss np nt M =
     (let v = map (\<lambda>i. score (q_mat M ! i ! (np - 1)) (q_star ss)) [0..<nt]
      in bind_err (select_index v) (\<lambda>i.
           Inr \<lparr>index = i, q_vec = q_vec_of ss nt, q_vec_abs = v, final = M\<rparr>))"

text \<open>
  The script from line 114 to line 172, for \<open>np\<close> periods and \<open>nt\<close> trials. With fewer than
  two periods the assignment \<^verbatim>\<open>\<Delta>t[1] = \<Delta>a\<close> of line 126 raises \<^verbatim>\<open>IndexError\<close>. The vectors
  \<^verbatim>\<open>B\<close>, \<^verbatim>\<open>q\<close>, \<^verbatim>\<open>K\<close> of lines 122-127 are never read afterwards and are left out.
\<close>

definition shooting :: "solver \<Rightarrow> params \<Rightarrow> nat \<Rightarrow> nat \<Rightarrow> error + outcome" where
  "shooting fsolve p np nt =
     bind_err (steady_state p) (\<lambda>ss.
       if np < 2 then Inl IndexError
       else select_best ss np nt
              (simulate fsolve p ss ((zeros np)[1 := par_Da p]) np nt (q_vec_of ss nt)))"


section \<open>Two runs of the script\<close>

text \<open>
  To compare two runs, the solver is a relation: \<open>S g x0 r\<close> says that a call with the
  residual function \<open>g\<close> and the starting point \<open>x0\<close> may return \<open>r\<close>. A run of the loop visits
  the pairs \<open>(s, t)\<close> in the order of the two \<^verbatim>\<open>for\<close> statements and stores what the call
  returned.
\<close>

type_synonym solver_rel = "(vec3 \<Rightarrow> residual) \<Rightarrow> vec3 \<Rightarrow> vec3 \<times> status \<Rightarrow> bool"

definition deterministic :: "solver_rel \<Rightarrow> bool" where
  "deterministic S = (\<forall>g x0 r r'. S g x0 r \<and> S g x0 r' \<longrightarrow> r = r')"

definition loop_order :: "nat \<Rightarrow> nat \<Rightarrow> (nat \<times> nat) list" where
  "loop_order np nt = concat (map (\<lambda>s. map (\<lambda>t. (s, t)) [1..<np - 1]) [0..<nt])"

inductive run_loop :: "solver_rel \<Rightarrow> params \<Rightarrow> steady \<Rightarrow> real list \<Rightarrow> (nat \<times> nat) list \<Rightarrow> mats \<Rightarrow> mats \<Rightarrow> bool"
  for S :: solver_rel and p :: params and ss :: steady and Dt :: "real list" where
  run_done: "run_loop S p ss Dt [] M M"
| run_step:
    "S (f p (nu ss) (q_mat M ! s ! t) (K_mat M ! s ! (t - 1)) (B_mat M ! s ! (t - 1)) (Dt ! t))
       (q_star ss, K_star ss, B_star ss) r
     \<Longrightarrow> run_loop S p ss Dt sts (store M s t (fst r)) M'
     \<Longrightarrow> run_loop S p ss Dt ((s, t) # sts) M M'"

inductive_cases run_loop_NilE: "run_loop S p ss Dt [] M M'"
inductive_cases run_loop_ConsE: "run_loop S p ss Dt ((s, t) # sts) M M'"

inductive run_script :: "solver_rel \<Rightarrow> params \<Rightarrow> nat \<Rightarrow> nat \<Rightarrow> error + outcome \<Rightarrow> bool"
  for S :: solver_rel and p :: params and np :: nat and nt :: nat where
  run_no_steady: "steady_state p = Inl e \<Longrightarrow> run_script S p np nt (Inl e)"
| run_short: "steady_state p = Inr ss \<Longrightarrow> np < 2 \<Longrightarrow> run_script S p np nt (Inl IndexError)"
| run_search:
    "steady_state p = Inr ss \<Longrightarrow> 2 \<le> np
     \<Longrightarrow> run_loop S p ss ((zeros np)[1 := par_Da p]) (loop_order np nt)
           (init_mats ss np nt (q_vec_of ss nt)) M
     \<Longrightarrow> run_script S p np nt (select_best ss np nt M)"

text \<open>A solver function as a relation: a call returns what the function returns.\<close>

definition graph_of :: "solver \<Rightarrow> solver_rel" where
  "graph_of fsolve g x0 r = (r = fsolve g x0)"

section \<open>Solvers for the instances\<close>

text \<open>
  The theorems hold for every solver. Their instances use two simple ones: \<open>returns_start\<close>
  gives back the starting point with a fixed status, and \<open>sweep\<close> moves the price of the
  starting point by one minus the first residual and reports no convergence.
\<close>

definition returns_start :: "status \<Rightarrow> solver" where
  "returns_start st g x0 = (x0, st)"

definition sweep :: solver where
  "sweep g x0 = ((fst x0 + 1 - fst (g x0), fst (snd x0), snd (snd x0)), NotConverged)"

section \<open>Double arithmetic\<close>

text \<open>
  Where a statement depends on rounding or on a test for zero, the steady-state block and
  the residuals are evaluated in the arithmetic the script runs in: IEEE 754 binary64 with
  rounding to nearest, ties to even. A double is finite (a sign and a magnitude, so that
  there are two zeros), infinite or not a number.
\<close>

datatype double = Dfin bool real | Dinf bool | Dnan

text \<open>The nearest integer, a tie going to the even one.\<close>

definition round_even :: "real \<Rightarrow> int" where
  "round_even x =
     (if x - of_int \<lfloor>x\<rfloor> < 1 / 2 then \<lfloor>x\<rfloor>
      else if 1 / 2 < x - of_int \<lfloor>x\<rfloor> then \<lfloor>x\<rfloor> + 1
      else if even \<lfloor>x\<rfloor> then \<lfloor>x\<rfloor> else \<lfloor>x\<rfloor> + 1)"

text \<open>
  The distance between neighbouring doubles at the magnitude \<open>m > 0\<close>: 52 fraction bits below
  the exponent of \<open>m\<close>, and \<open>2\<^sup>-\<^sup>1\<^sup>0\<^sup>7\<^sup>4\<close> in the subnormal range.
\<close>

definition quantum :: "real \<Rightarrow> real" where
  "quantum m = 2 powi (max \<lfloor>log 2 m\<rfloor> (- 1022) - 52)"

text \<open>
  Rounding a magnitude \<open>m \<ge> 0\<close> with the sign \<open>s\<close> (\<open>True\<close> is negative): to the nearest
  multiple of the quantum, to infinity from \<open>2\<^sup>1\<^sup>0\<^sup>2\<^sup>4\<close> on.
\<close>

definition rnd :: "bool \<Rightarrow> real \<Rightarrow> double" where
  "rnd s m =
     (if m = 0 then Dfin s 0
      else if 2 ^ 1024 \<le> of_int (round_even (m / quantum m)) * quantum m then Dinf s
      else Dfin s (of_int (round_even (m / quantum m)) * quantum m))"

definition sval :: "bool \<Rightarrow> real \<Rightarrow> real" where
  "sval s m = (if s then - m else m)"

text \<open>A literal of the script: the double nearest to the decimal.\<close>

definition lit :: "real \<Rightarrow> double" where
  "lit x = rnd (x < 0) \<bar>x\<bar>"

fun is_zero :: "double \<Rightarrow> bool" where
  "is_zero (Dfin s m) = (m = 0)"
| "is_zero _ = False"

fun dneg :: "double \<Rightarrow> double" where
  "dneg (Dfin s m) = Dfin (\<not> s) m"
| "dneg (Dinf s) = Dinf (\<not> s)"
| "dneg Dnan = Dnan"

text \<open>An exact sum of zero is \<open>+0\<close>, unless both terms are \<open>-0\<close>.\<close>

fun dadd :: "double \<Rightarrow> double \<Rightarrow> double" where
  "dadd (Dfin s a) (Dfin t b) =
     (if sval s a + sval t b = 0 then Dfin (s \<and> t) 0
      else rnd (sval s a + sval t b < 0) \<bar>sval s a + sval t b\<bar>)"
| "dadd (Dfin s a) (Dinf t) = Dinf t"
| "dadd (Dinf s) (Dfin t b) = Dinf s"
| "dadd (Dinf s) (Dinf t) = (if s = t then Dinf s else Dnan)"
| "dadd Dnan _ = Dnan"
| "dadd _ Dnan = Dnan"

definition dsub :: "double \<Rightarrow> double \<Rightarrow> double" where
  "dsub x y = dadd x (dneg y)"

fun dmul :: "double \<Rightarrow> double \<Rightarrow> double" where
  "dmul (Dfin s a) (Dfin t b) = rnd (s \<noteq> t) (a * b)"
| "dmul (Dfin s a) (Dinf t) = (if a = 0 then Dnan else Dinf (s \<noteq> t))"
| "dmul (Dinf s) (Dfin t b) = (if b = 0 then Dnan else Dinf (s \<noteq> t))"
| "dmul (Dinf s) (Dinf t) = Dinf (s \<noteq> t)"
| "dmul Dnan _ = Dnan"
| "dmul _ Dnan = Dnan"

text \<open>Division as NumPy does it: a zero divisor gives an infinity or not a number.\<close>

fun ddiv :: "double \<Rightarrow> double \<Rightarrow> double" where
  "ddiv (Dfin s a) (Dfin t b) =
     (if b = 0 then (if a = 0 then Dnan else Dinf (s \<noteq> t)) else rnd (s \<noteq> t) (a / b))"
| "ddiv (Dfin s a) (Dinf t) = Dfin (s \<noteq> t) 0"
| "ddiv (Dinf s) (Dfin t b) = Dinf (s \<noteq> t)"
| "ddiv (Dinf s) (Dinf t) = Dnan"
| "ddiv Dnan _ = Dnan"
| "ddiv _ Dnan = Dnan"

text \<open>
  The magnitudes of the finite doubles are multiples of \<open>2\<^sup>-\<^sup>1\<^sup>0\<^sup>7\<^sup>4\<close>, the smallest positive
  double.
\<close>

definition on_grid :: "real \<Rightarrow> bool" where
  "on_grid m \<longleftrightarrow> of_int \<lfloor>m * 2 ^ 1074\<rfloor> = m * 2 ^ 1074"

text \<open>Division of two Python floats: a zero divisor, of either sign, raises.\<close>

definition py_ddiv :: "double \<Rightarrow> double \<Rightarrow> error + double" where
  "py_ddiv x y = (if is_zero y then Inl ZeroDivisionError else Inr (ddiv x y))"

text \<open>The value of a finite double.\<close>

fun dval :: "double \<Rightarrow> real" where
  "dval (Dfin s m) = sval s m"
| "dval _ = 0"

record fl_params =
  fl_R :: double
  fl_lam :: double
  fl_eta :: double
  fl_a :: double
  fl_Da :: double
  fl_pi :: double
  fl_phi :: double

record fl_steady =
  fl_q_star :: double
  fl_nu :: double
  fl_K_star :: double
  fl_B_star :: double

text \<open>The parameter block of the script (lines 104-110) as the doubles its literals denote.\<close>

definition ref_fl_params :: fl_params where
  "ref_fl_params = \<lparr>fl_R = lit (101 / 100), fl_lam = lit (975 / 1000), fl_eta = lit (10 / 100),
     fl_a = lit 1, fl_Da = lit (1 / 100), fl_pi = lit (1 / 10), fl_phi = lit 20\<rparr>"

text \<open>
  Lines 114-117 in double arithmetic, each operation in the order Python evaluates it:
  \<open>fl_num\<close> is \<^verbatim>\<open>\<pi>*a - (1-\<lambda>)*(1 - R + \<pi>*R)*\<phi>\<close> and \<open>fl_den\<close> is \<^verbatim>\<open>\<lambda>*\<pi> + (1-\<lambda>)*(1 - R + \<pi>*R)\<close>.
\<close>

definition fl_num :: "fl_params \<Rightarrow> double" where
  "fl_num p = dsub (dmul (fl_pi p) (fl_a p))
     (dmul (dmul (dsub (lit 1) (fl_lam p))
                 (dadd (dsub (lit 1) (fl_R p)) (dmul (fl_pi p) (fl_R p))))
           (fl_phi p))"

definition fl_den :: "fl_params \<Rightarrow> double" where
  "fl_den p = dadd (dmul (fl_lam p) (fl_pi p))
     (dmul (dsub (lit 1) (fl_lam p))
           (dadd (dsub (lit 1) (fl_R p)) (dmul (fl_pi p) (fl_R p))))"

definition steady_state_fl :: "fl_params \<Rightarrow> error + fl_steady" where
  "steady_state_fl p =
     bind_err (py_ddiv (fl_R p) (dsub (fl_R p) (lit 1))) (\<lambda>r1.
     bind_err (py_ddiv (dmul r1 (fl_num p)) (fl_den p)) (\<lambda>qs.
     bind_err (py_ddiv (dsub (fl_R p) (lit 1)) (fl_R p)) (\<lambda>r2.
     bind_err (py_ddiv qs (fl_eta p)) (\<lambda>r3.
       (let v = dmul r2 r3 in
     bind_err (py_ddiv (dsub (fl_R p) (lit 1)) (fl_R p)) (\<lambda>r4.
       (let Ks = dadd (dmul r4 qs) v in
     bind_err (py_ddiv (lit 1) (dsub (fl_R p) (lit 1))) (\<lambda>r5.
       Inr \<lparr>fl_q_star = qs, fl_nu = v, fl_K_star = Ks,
            fl_B_star = dmul (dmul r5 (dadd (dsub (fl_a p) (fl_phi p))
                                          (dmul (fl_lam p) (fl_phi p)))) Ks\<rparr>))))))))"




text \<open>The steady state of the script's parameters in double arithmetic.\<close>

definition ref_fl_steady :: fl_steady where
  "ref_fl_steady = \<lparr>fl_q_star = Dfin False (1941091216867707 / 35184372088832),
     fl_nu = Dfin False (1537497993558581 / 281474976710656),
     fl_K_star = Dfin False (1691247792914439 / 281474976710656),
     fl_B_star = Dfin False (5285149352857617 / 17592186044416)\<rparr>"



text \<open>
  The script's parameters with \<open>R = 0.0\<close>, and parameters whose denominator is zero as
  computed: \<open>R = 2\<close>, \<open>\<lambda> = 0\<close>, \<open>\<pi> = 1/2\<close>.
\<close>

definition zero_R_fl_params :: fl_params where
  "zero_R_fl_params = \<lparr>fl_R = lit 0, fl_lam = lit (975 / 1000), fl_eta = lit (10 / 100),
     fl_a = lit 1, fl_Da = lit (1 / 100), fl_pi = lit (1 / 10), fl_phi = lit 20\<rparr>"



section \<open>Rows of the matrices\<close>

text \<open>
  Devices of the proofs. Trial \<open>s\<close> reads and writes row \<open>s\<close> of the three matrices only, so
  the loop over \<open>t\<close> is a loop on one row: \<open>row_step\<close> is \<open>solve_step\<close> on a row, \<open>solved_at\<close>
  says that the entries stored for period \<open>t\<close> are what the solver returned for the entries the
  row holds, and \<open>row_inv\<close> is the invariant of the loop over \<open>t\<close>.
\<close>

type_synonym row = "real list \<times> real list \<times> real list"

definition get_row :: "mats \<Rightarrow> nat \<Rightarrow> row" where
  "get_row M s = (q_mat M ! s, K_mat M ! s, B_mat M ! s)"

definition set_row :: "mats \<Rightarrow> nat \<Rightarrow> row \<Rightarrow> mats" where
  "set_row M s = (\<lambda>(q, K, B).
     M\<lparr>q_mat := (q_mat M)[s := q], K_mat := (K_mat M)[s := K], B_mat := (B_mat M)[s := B]\<rparr>)"

definition row_step :: "solver \<Rightarrow> params \<Rightarrow> steady \<Rightarrow> real list \<Rightarrow> nat \<Rightarrow> row \<Rightarrow> row" where
  "row_step fsolve p ss Dt t = (\<lambda>(q, K, B).
     case fst (fsolve (f p (nu ss) (q ! t) (K ! (t - 1)) (B ! (t - 1)) (Dt ! t))
                 (q_star ss, K_star ss, B_star ss)) of
       (q_tplus1, K_t, B_t) \<Rightarrow> (q[t + 1 := q_tplus1], K[t := K_t], B[t := B_t]))"

definition rows :: "mats \<Rightarrow> nat \<Rightarrow> bool" where
  "rows M n \<longleftrightarrow> length (q_mat M) = n \<and> length (K_mat M) = n \<and> length (B_mat M) = n"

definition solved_at :: "solver \<Rightarrow> params \<Rightarrow> steady \<Rightarrow> real list \<Rightarrow> row \<Rightarrow> nat \<Rightarrow> bool" where
  "solved_at fsolve p ss Dt r t = (case r of (q, K, B) \<Rightarrow>
     (q ! (t + 1), K ! t, B ! t)
       = fst (fsolve (f p (nu ss) (q ! t) (K ! (t - 1)) (B ! (t - 1)) (Dt ! t))
                (q_star ss, K_star ss, B_star ss)))"

definition row_inv :: "nat \<Rightarrow> solver \<Rightarrow> params \<Rightarrow> steady \<Rightarrow> real list \<Rightarrow> row \<Rightarrow> nat \<Rightarrow> row \<Rightarrow> bool" where
  "row_inv np fsolve p ss Dt r0 m r = (case r0 of (q0, K0, B0) \<Rightarrow> case r of (q, K, B) \<Rightarrow>
     length q = np \<and> length K = np \<and> length B = np
     \<and> (\<forall>t. 1 \<le> t \<and> t < m \<longrightarrow> solved_at fsolve p ss Dt r t)
     \<and> (\<forall>j. j \<le> 1 \<or> m < j \<longrightarrow> q ! j = q0 ! j)
     \<and> (\<forall>j. j = 0 \<or> m \<le> j \<longrightarrow> K ! j = K0 ! j \<and> B ! j = B0 ! j))"

section \<open>The steady state in exact arithmetic\<close>

text \<open>
  What the formulas of lines 114-117 and the residuals of lines 155-157 give over the reals.
  The double arithmetic of the script agrees with it up to rounding only; the sections on
  double arithmetic below evaluate the roundings.
\<close>


lemma steady_state_closed_form:
  assumes "par_R p \<noteq> 0" "par_R p \<noteq> 1" "par_eta p \<noteq> 0" "ss_den p \<noteq> 0"
  shows "steady_state p =
    Inr \<lparr>q_star = (par_R p / (par_R p - 1)) * ss_num p / ss_den p,
         nu = ((par_R p - 1) / par_R p) * ((par_R p / (par_R p - 1)) * ss_num p / ss_den p / par_eta p),
         K_star = ((par_R p - 1) / par_R p) * ((par_R p / (par_R p - 1)) * ss_num p / ss_den p)
           + ((par_R p - 1) / par_R p) * ((par_R p / (par_R p - 1)) * ss_num p / ss_den p / par_eta p),
         B_star = (1 / (par_R p - 1)) * (par_a p - par_phi p + par_lam p * par_phi p)
           * (((par_R p - 1) / par_R p) * ((par_R p / (par_R p - 1)) * ss_num p / ss_den p)
              + ((par_R p - 1) / par_R p) * ((par_R p / (par_R p - 1)) * ss_num p / ss_den p / par_eta p))\<rparr>"
  using assms by (simp add: steady_state_def bind_err_def py_div_def Let_def)

lemma steady_state_Inr_iff:
  "(\<exists>ss. steady_state p = Inr ss) \<longleftrightarrow>
     par_R p \<noteq> 0 \<and> par_R p \<noteq> 1 \<and> par_eta p \<noteq> 0 \<and> ss_den p \<noteq> 0"
  by (auto simp add: steady_state_def bind_err_def py_div_def Let_def split: sum.splits if_splits)

lemma steady_state_InrD:
  assumes "steady_state p = Inr ss"
  shows "par_R p \<noteq> 0" "par_R p \<noteq> 1" "par_eta p \<noteq> 0" "ss_den p \<noteq> 0"
  using assms steady_state_Inr_iff [of p] by blast+

lemma steady_state_ref: "steady_state ref_params = Inr ref_steady"
  by (simp add: steady_state_def bind_err_def py_div_def Let_def ref_params_def
      ss_num_def ss_den_def ref_steady_def)

lemma steady_fields:
  assumes "steady_state p = Inr ss"
  shows "q_star ss = (par_R p / (par_R p - 1)) * ss_num p / ss_den p"
    and "nu ss = ((par_R p - 1) / par_R p) * (q_star ss / par_eta p)"
    and "K_star ss = ((par_R p - 1) / par_R p) * q_star ss + nu ss"
    and "B_star ss = (1 / (par_R p - 1)) * (par_a p - par_phi p + par_lam p * par_phi p) * K_star ss"
proof -
  note d = steady_state_InrD [OF assms]
  from steady_state_closed_form [OF d] assms
  have ss: "ss = \<lparr>q_star = (par_R p / (par_R p - 1)) * ss_num p / ss_den p,
         nu = ((par_R p - 1) / par_R p) * ((par_R p / (par_R p - 1)) * ss_num p / ss_den p / par_eta p),
         K_star = ((par_R p - 1) / par_R p) * ((par_R p / (par_R p - 1)) * ss_num p / ss_den p)
           + ((par_R p - 1) / par_R p) * ((par_R p / (par_R p - 1)) * ss_num p / ss_den p / par_eta p),
         B_star = (1 / (par_R p - 1)) * (par_a p - par_phi p + par_lam p * par_phi p)
           * (((par_R p - 1) / par_R p) * ((par_R p / (par_R p - 1)) * ss_num p / ss_den p)
              + ((par_R p - 1) / par_R p) * ((par_R p / (par_R p - 1)) * ss_num p / ss_den p / par_eta p))\<rparr>"
    by simp
  have q: "q_star ss = (par_R p / (par_R p - 1)) * ss_num p / ss_den p"
    by (rule trans [OF arg_cong [OF ss, of q_star]]) simp
  have n: "nu ss = ((par_R p - 1) / par_R p) * ((par_R p / (par_R p - 1)) * ss_num p / ss_den p / par_eta p)"
    by (rule trans [OF arg_cong [OF ss, of nu]]) simp
  have K: "K_star ss = ((par_R p - 1) / par_R p) * ((par_R p / (par_R p - 1)) * ss_num p / ss_den p)
           + ((par_R p - 1) / par_R p) * ((par_R p / (par_R p - 1)) * ss_num p / ss_den p / par_eta p)"
    by (rule trans [OF arg_cong [OF ss, of K_star]]) simp
  have B: "B_star ss = (1 / (par_R p - 1)) * (par_a p - par_phi p + par_lam p * par_phi p)
           * (((par_R p - 1) / par_R p) * ((par_R p / (par_R p - 1)) * ss_num p / ss_den p)
              + ((par_R p - 1) / par_R p) * ((par_R p / (par_R p - 1)) * ss_num p / ss_den p / par_eta p))"
    by (rule trans [OF arg_cong [OF ss, of B_star]]) simp
  show "q_star ss = (par_R p / (par_R p - 1)) * ss_num p / ss_den p" by (fact q)
  show "nu ss = ((par_R p - 1) / par_R p) * (q_star ss / par_eta p)"
    unfolding q n ..
  show "K_star ss = ((par_R p - 1) / par_R p) * q_star ss + nu ss"
    unfolding q n K ..
  show "B_star ss = (1 / (par_R p - 1)) * (par_a p - par_phi p + par_lam p * par_phi p) * K_star ss"
    unfolding K B ..
qed

lemma first_eq_steady:
  assumes "steady_state p = Inr ss"
  shows "first_eq p (nu ss) (q_star ss) (q_star ss, K_star ss, B_star ss) = 0"
proof -
  note d = steady_state_InrD [OF assms]
  have "K_star ss - nu ss = ((par_R p - 1) / par_R p) * q_star ss"
    by (simp add: steady_fields(3) [OF assms])
  then have "par_R p * (K_star ss - nu ss) = (par_R p - 1) * q_star ss"
    using d(1) by simp
  then show ?thesis
    by (simp add: first_eq_def algebra_simps)
qed

lemma third_eq_steady:
  assumes "steady_state p = Inr ss"
  shows "third_eq p (q_star ss) (K_star ss) (B_star ss) 0 (q_star ss, K_star ss, B_star ss) = 0"
proof -
  note d = steady_state_InrD [OF assms]
  have "(par_R p - 1) * B_star ss = (par_a p - par_phi p + par_lam p * par_phi p) * K_star ss"
    using d(2) by (simp add: steady_fields(4) [OF assms])
  then show ?thesis
    by (simp add: third_eq_def algebra_simps)
qed


lemma steady_identity:
  fixes R lam a ppi phi x :: real
  assumes D: "lam * ppi + (1 - lam) * (1 - R + ppi * R) \<noteq> 0"
    and x: "x * (lam * ppi + (1 - lam) * (1 - R + ppi * R))
              = ppi * a - (1 - lam) * (1 - R + ppi * R) * phi"
  shows "(1 - (1 - ppi) * lam) * (R - 1) * (phi + x) = ppi * (R * x + R * phi - a - lam * phi)"
proof -
  let ?D = "lam * ppi + (1 - lam) * (1 - R + ppi * R)"
  have "((1 - (1 - ppi) * lam) * (R - 1) * (phi + x)
          - ppi * (R * x + R * phi - a - lam * phi)) * ?D
        = (1 - (1 - ppi) * lam) * (R - 1) * (phi * ?D + x * ?D)
          - ppi * (R * (x * ?D) + (R * phi - a - lam * phi) * ?D)"
    by (simp only: algebra_simps)
  also have "\<dots> = 0"
    unfolding x by (simp add: algebra_simps)
  finally show ?thesis using D by simp
qed

lemma second_eq_steady:
  assumes ss: "steady_state p = Inr ss"
    and den: "par_phi p + q_star ss - q_star ss / par_R p \<noteq> 0"
  shows "second_eq p (q_star ss) (K_star ss) (B_star ss) 0 (q_star ss, K_star ss, B_star ss) = Some 0"
proof -
  note d = steady_state_InrD [OF ss]
  note fl = steady_fields [OF ss]
  define x where "x = ss_num p / ss_den p"
  have xD: "x * (par_lam p * par_pi p + (1 - par_lam p) * (1 - par_R p + par_pi p * par_R p))
     = par_pi p * par_a p - (1 - par_lam p) * (1 - par_R p + par_pi p * par_R p) * par_phi p"
    using d(4) by (simp add: x_def ss_num_def ss_den_def)
  have D: "par_lam p * par_pi p + (1 - par_lam p) * (1 - par_R p + par_pi p * par_R p) \<noteq> 0"
    using d(4) by (simp add: ss_den_def)
  note key = steady_identity [OF D xD]
  have R1: "par_R p - 1 \<noteq> 0" using d(2) by simp
  have q: "q_star ss = (par_R p / (par_R p - 1)) * x"
    by (simp add: fl(1) x_def)
  have qR: "q_star ss * (par_R p - 1) = par_R p * x"
    using R1 by (simp add: q)
  have qx: "q_star ss - q_star ss / par_R p = x"
  proof -
    have "q_star ss - q_star ss / par_R p = (q_star ss * (par_R p - 1)) / par_R p"
      using d(1) by (simp add: field_simps)
    also have "\<dots> = x" using d(1) by (simp add: qR)
    finally show ?thesis .
  qed
  have dx: "par_phi p + q_star ss - q_star ss / par_R p = par_phi p + x"
    using qx by simp
  have px: "par_phi p + x \<noteq> 0" using den dx by simp
  have B: "par_R p * B_star ss
      = par_R p * (par_a p - par_phi p + par_lam p * par_phi p) * K_star ss / (par_R p - 1)"
    by (simp add: fl(4))
  have inner: "(par_a p + 0 + q_star ss + par_lam p * par_phi p) * K_star ss - par_R p * B_star ss
      = K_star ss * (par_R p * x + par_R p * par_phi p - par_a p - par_lam p * par_phi p)
          / (par_R p - 1)"
  proof -
    have "((par_a p + 0 + q_star ss + par_lam p * par_phi p) * K_star ss - par_R p * B_star ss)
          * (par_R p - 1)
        = K_star ss * (q_star ss * (par_R p - 1) + par_R p * par_phi p - par_a p
            - par_lam p * par_phi p)"
      unfolding B using R1 by (simp add: field_simps)
    then show ?thesis
      unfolding qR using R1 by (simp add: field_simps)
  qed
  have "(par_pi p / (par_phi p + x))
          * ((par_a p + 0 + q_star ss + par_lam p * par_phi p) * K_star ss - par_R p * B_star ss)
       = K_star ss * (par_pi p * (par_R p * x + par_R p * par_phi p - par_a p - par_lam p * par_phi p))
           / ((par_R p - 1) * (par_phi p + x))"
    unfolding inner by (simp add: mult_ac)
  also have "\<dots> = K_star ss * ((1 - (1 - par_pi p) * par_lam p) * (par_R p - 1) * (par_phi p + x))
           / ((par_R p - 1) * (par_phi p + x))"
    unfolding key ..
  also have "\<dots> = K_star ss * (1 - (1 - par_pi p) * par_lam p)"
    using R1 px by simp
  finally have "K_star ss - (1 - par_pi p) * par_lam p * K_star ss
       - (par_pi p / (par_phi p + x))
          * ((par_a p + 0 + q_star ss + par_lam p * par_phi p) * K_star ss - par_R p * B_star ss) = 0"
    by (simp add: algebra_simps)
  then show ?thesis
    unfolding second_eq_def using den dx by simp
qed

lemma f_steady_root:
  assumes "steady_state p = Inr ss"
    and "par_phi p + q_star ss - q_star ss / par_R p \<noteq> 0"
  shows "f p (nu ss) (q_star ss) (K_star ss) (B_star ss) 0 (q_star ss, K_star ss, B_star ss)
    = (0, Some 0, 0)"
  by (simp add: f_def first_eq_steady [OF assms(1)] second_eq_steady [OF assms]
      third_eq_steady [OF assms(1)])

text \<open>
  Where \<open>\<phi> + q* - q*/R = 0\<close> the second residual is \<^verbatim>\<open>nan\<close> (\<^verbatim>\<open>inf\<close> times zero), in exact
  arithmetic as well.
\<close>

lemma f_degenerate:
  "steady_state degenerate_params = Inr \<lparr>q_star = 4, nu = 4, K_star = 6, B_star = 12\<rparr>
   \<and> f degenerate_params 4 4 6 12 0 (4, 6, 12) = (0, None, 0)"
  by (simp add: steady_state_def bind_err_def py_div_def Let_def degenerate_params_def
      ss_num_def ss_den_def f_def first_eq_def second_eq_def third_eq_def)

section \<open>Evaluating double arithmetic\<close>

lemma quantum_eval:
  assumes "2 powi k \<le> m" "m < 2 powi (k + 1)"
  shows "quantum m = 2 powi (max k (- 1022) - 52)"
proof -
  have pos: "0 < m" using assms(1) by (smt (verit) zero_less_power_int)
  have a: "(2::real) powr of_int k = 2 powi k"
    by (simp add: powr_real_of_int')
  have "(2::real) powr of_int (k + 1) = 2 powi (k + 1)"
    by (rule powr_real_of_int') simp_all
  then have b: "(2::real) powr (of_int k + 1) = 2 powi (k + 1)"
    by simp
  have "\<lfloor>log 2 m\<rfloor> = k"
    using assms pos unfolding floor_log_eq_powr_iff [OF pos, of 2 k, simplified] a b by simp
  then show ?thesis by (simp add: quantum_def)
qed

text \<open>Rounding a magnitude whose exponent \<open>k\<close> is known.\<close>

lemma rnd_eval:
  assumes "2 powi k \<le> m" "m < 2 powi (k + 1)"
  shows "rnd s m =
    (if 2 ^ 1024 \<le> real_of_int (round_even (m / 2 powi (max k (- 1022) - 52)))
          * 2 powi (max k (- 1022) - 52)
     then Dinf s
     else Dfin s (real_of_int (round_even (m / 2 powi (max k (- 1022) - 52)))
          * 2 powi (max k (- 1022) - 52)))"
proof -
  have "0 < m" using assms(1) by (smt (verit) zero_less_power_int)
  then show ?thesis
    by (simp add: rnd_def quantum_eval [OF assms])
qed

lemma lit_0: "lit 0 = Dfin False 0"
  by (simp add: lit_def rnd_def)

lemma lit_1: "lit 1 = Dfin False 1"
  by (simp add: lit_def rnd_eval [of 0] round_even_def power_int_minus)

lemma round_even_ge_floor: "\<lfloor>x\<rfloor> \<le> round_even x"
  by (simp add: round_even_def)

lemma quantum_pos: "0 < quantum x"
  by (simp add: quantum_def)

lemma quantum_le:
  assumes "2 powi (- 1074) \<le> x"
  shows "quantum x \<le> x"
proof -
  have pos: "0 < x"
    using assms by (smt (verit) zero_less_power_int)
  show ?thesis
  proof (cases "- 1022 \<le> \<lfloor>log 2 x\<rfloor>")
    case True
    then have "max \<lfloor>log 2 x\<rfloor> (- 1022) = \<lfloor>log 2 x\<rfloor>"
      by (rule max_absorb1)
    then have "quantum x = 2 powi (\<lfloor>log 2 x\<rfloor> - 52)"
      unfolding quantum_def by (rule arg_cong)
    also have "\<dots> \<le> 2 powi \<lfloor>log 2 x\<rfloor>"
      by (rule power_int_increasing) simp_all
    also have "\<dots> = 2 powr of_int \<lfloor>log 2 x\<rfloor>"
      by (simp add: powr_real_of_int')
    also have "\<dots> \<le> 2 powr log 2 x"
      by (rule powr_mono) simp_all
    also have "\<dots> = x"
      using pos by simp
    finally show ?thesis .
  next
    case False
    then have "\<lfloor>log 2 x\<rfloor> \<le> - 1022"
      by linarith
    then have "max \<lfloor>log 2 x\<rfloor> (- 1022) = - 1022"
      by (rule max_absorb2)
    then have "quantum x = 2 powi (- 1022 - 52)"
      unfolding quantum_def by (rule arg_cong)
    then have "quantum x = 2 powi (- 1074)"
      by simp
    then show ?thesis
      using assms by simp
  qed
qed

lemma rnd_nonzero:
  assumes "2 powi (- 1074) \<le> x"
  shows "\<not> is_zero (rnd b x)"
proof -
  have pos: "0 < x"
    using assms by (smt (verit) zero_less_power_int)
  have "1 \<le> x / quantum x"
    using quantum_le [OF assms] quantum_pos [of x] by simp
  then have "1 \<le> \<lfloor>x / quantum x\<rfloor>"
    by simp
  then have "1 \<le> round_even (x / quantum x)"
    using round_even_ge_floor [of "x / quantum x"] by linarith
  then have "round_even (x / quantum x) \<noteq> 0"
    by simp
  moreover have "quantum x \<noteq> 0"
    using quantum_pos [of x] by simp
  ultimately show ?thesis
    using pos by (simp add: rnd_def)
qed

lemma on_grid_diff:
  assumes "on_grid m" "sval s m \<noteq> 1"
  shows "2 powi (- 1074) \<le> \<bar>sval s m - 1\<bar>"
proof -
  define c :: real where "c = 2 ^ 1074"
  have cpos: "0 < c"
    by (simp add: c_def)
  have c_int: "c = of_int (2 ^ 1074)"
    by (simp add: c_def)
  define n where "n = \<lfloor>m * 2 ^ 1074\<rfloor>"
  have "m * 2 ^ 1074 = of_int n"
    using assms(1) unfolding on_grid_def n_def by (rule sym)
  then have m: "m * c = of_int n"
    unfolding c_def .
  define k :: int where "k = (if s then - n else n) - 2 ^ 1074"
  have "(sval s m - 1) * c = sval s m * c - c"
    by (simp add: algebra_simps)
  also have "\<dots> = of_int (if s then - n else n) - c"
    using m by (simp add: sval_def)
  also have "\<dots> = of_int k"
    unfolding k_def c_int by (simp only: of_int_diff)
  finally have k: "(sval s m - 1) * c = of_int k" .
  have "k \<noteq> 0"
  proof
    assume "k = 0"
    with k have "(sval s m - 1) * c = 0" by simp
    then show False using assms(2) cpos by simp
  qed
  then have "1 \<le> \<bar>k\<bar>" by simp
  then have "1 \<le> \<bar>real_of_int k\<bar>" by linarith
  then have "1 \<le> \<bar>sval s m - 1\<bar> * c"
    unfolding k [symmetric] using cpos by (simp add: abs_mult)
  then have "1 / c \<le> \<bar>sval s m - 1\<bar>"
    using cpos by (simp add: pos_divide_le_eq)
  moreover have "(2::real) powi (- 1074) = 1 / c"
    unfolding c_def power_int_minus by (simp only: power_int_numeral inverse_eq_divide)
  ultimately show ?thesis by (simp only:)
qed

text \<open>
  A difference of two doubles that is not zero does not round to zero: for a double \<open>R\<close>, the
  computed \<open>R - 1\<close> is a zero only when \<open>R\<close> is 1.
\<close>

lemma dsub_one_zero_iff:
  assumes "on_grid m"
  shows "is_zero (dsub (Dfin s m) (lit 1)) \<longleftrightarrow> sval s m = 1"
proof (cases "sval s m = 1")
  case True
  then show ?thesis
    by (simp add: dsub_def lit_1 sval_def)
next
  case False
  from rnd_nonzero [OF on_grid_diff [OF assms False]] False show ?thesis
    by (simp add: dsub_def lit_1 sval_def)
qed

text \<open>The steady-state block raises exactly when one of its four divisors is a zero.\<close>

lemma steady_state_fl_cases:
  "steady_state_fl p =
     (if is_zero (dsub (fl_R p) (lit 1)) \<or> is_zero (fl_den p) \<or> is_zero (fl_R p)
         \<or> is_zero (fl_eta p)
      then Inl ZeroDivisionError
      else Inr \<lparr>fl_q_star = ddiv (dmul (ddiv (fl_R p) (dsub (fl_R p) (lit 1))) (fl_num p)) (fl_den p),
        fl_nu = dmul (ddiv (dsub (fl_R p) (lit 1)) (fl_R p))
          (ddiv (ddiv (dmul (ddiv (fl_R p) (dsub (fl_R p) (lit 1))) (fl_num p)) (fl_den p)) (fl_eta p)),
        fl_K_star = dadd (dmul (ddiv (dsub (fl_R p) (lit 1)) (fl_R p))
            (ddiv (dmul (ddiv (fl_R p) (dsub (fl_R p) (lit 1))) (fl_num p)) (fl_den p)))
          (dmul (ddiv (dsub (fl_R p) (lit 1)) (fl_R p))
          (ddiv (ddiv (dmul (ddiv (fl_R p) (dsub (fl_R p) (lit 1))) (fl_num p)) (fl_den p)) (fl_eta p))),
        fl_B_star = dmul (dmul (ddiv (lit 1) (dsub (fl_R p) (lit 1)))
            (dadd (dsub (fl_a p) (fl_phi p)) (dmul (fl_lam p) (fl_phi p))))
          (dadd (dmul (ddiv (dsub (fl_R p) (lit 1)) (fl_R p))
            (ddiv (dmul (ddiv (fl_R p) (dsub (fl_R p) (lit 1))) (fl_num p)) (fl_den p)))
          (dmul (ddiv (dsub (fl_R p) (lit 1)) (fl_R p))
          (ddiv (ddiv (dmul (ddiv (fl_R p) (dsub (fl_R p) (lit 1))) (fl_num p)) (fl_den p)) (fl_eta p))))\<rparr>)"
  by (simp add: steady_state_fl_def bind_err_def py_ddiv_def Let_def)

section \<open>The steady state in double arithmetic\<close>

text \<open>
  The operations of lines 114-117 and 155-157 on the script's parameters, one lemma for each
  rounding.
\<close>

lemma ref_op_1:
  "lit (101 / 100) = (Dfin False (4548635623644201 / 4503599627370496))"
  by (simp add: lit_def rnd_eval [of 0] round_even_def power_int_minus)

lemma ref_op_2:
  "lit (975 / 1000) = (Dfin False (8782019273372467 / 9007199254740992))"
  by (simp add: lit_def rnd_eval [of "- 1"] round_even_def power_int_minus)

lemma ref_op_3:
  "lit (10 / 100) = (Dfin False (3602879701896397 / 36028797018963968))"
  by (simp add: lit_def rnd_eval [of "- 4"] round_even_def power_int_minus)

lemma ref_op_4:
  "lit (1 / 100) = (Dfin False (5764607523034235 / 576460752303423488))"
  by (simp add: lit_def rnd_eval [of "- 7"] round_even_def power_int_minus)

lemma ref_op_5:
  "lit (1 / 10) = (Dfin False (3602879701896397 / 36028797018963968))"
  by (simp add: lit_def rnd_eval [of "- 4"] round_even_def power_int_minus)

lemma ref_op_6:
  "lit (20) = (Dfin False (20))"
  by (simp add: lit_def rnd_eval [of 4] round_even_def power_int_minus)

lemma ref_op_7:
  "dsub (Dfin False (4548635623644201 / 4503599627370496)) (Dfin False (1)) = (Dfin False (45035996273705 / 4503599627370496))"
  by (simp add: dsub_def sval_def rnd_eval [of "- 7"] round_even_def power_int_minus)

lemma ref_op_8:
  "ddiv (Dfin False (4548635623644201 / 4503599627370496)) (Dfin False (45035996273705 / 4503599627370496)) = (Dfin False (3553621580972029 / 35184372088832))"
  by (simp add: dsub_def sval_def rnd_eval [of 6] round_even_def power_int_minus)

lemma ref_op_9:
  "dmul (Dfin False (3602879701896397 / 36028797018963968)) (Dfin False (1)) = (Dfin False (3602879701896397 / 36028797018963968))"
  by (simp add: dsub_def sval_def rnd_eval [of "- 4"] round_even_def power_int_minus)

lemma ref_op_10:
  "dsub (Dfin False (1)) (Dfin False (8782019273372467 / 9007199254740992)) = (Dfin False (225179981368525 / 9007199254740992))"
  by (simp add: dsub_def sval_def rnd_eval [of "- 6"] round_even_def power_int_minus)

lemma ref_op_11:
  "dsub (Dfin False (1)) (Dfin False (4548635623644201 / 4503599627370496)) = (Dfin True (45035996273705 / 4503599627370496))"
  by (simp add: dsub_def sval_def rnd_eval [of "- 7"] round_even_def power_int_minus)

lemma ref_op_12:
  "dmul (Dfin False (3602879701896397 / 36028797018963968)) (Dfin False (4548635623644201 / 4503599627370496)) = (Dfin False (3638908498915361 / 36028797018963968))"
  by (simp add: dsub_def sval_def rnd_eval [of "- 4"] round_even_def power_int_minus)

lemma ref_op_13:
  "dadd (Dfin True (45035996273705 / 4503599627370496)) (Dfin False (3638908498915361 / 36028797018963968)) = (Dfin False (3278620528725721 / 36028797018963968))"
  by (simp add: dsub_def sval_def rnd_eval [of "- 4"] round_even_def power_int_minus)

lemma ref_op_14:
  "dmul (Dfin False (225179981368525 / 9007199254740992)) (Dfin False (3278620528725721 / 36028797018963968)) = (Dfin False (2622896422980579 / 1152921504606846976))"
  by (simp add: dsub_def sval_def rnd_eval [of "- 9"] round_even_def power_int_minus)

lemma ref_op_15:
  "dmul (Dfin False (2622896422980579 / 1152921504606846976)) (Dfin False (20)) = (Dfin False (819655132181431 / 18014398509481984))"
  by (simp add: dsub_def sval_def rnd_eval [of "- 5"] round_even_def power_int_minus)

lemma ref_op_16:
  "dsub (Dfin False (3602879701896397 / 36028797018963968)) (Dfin False (819655132181431 / 18014398509481984)) = (Dfin False (1963569437533535 / 36028797018963968))"
  by (simp add: dsub_def sval_def rnd_eval [of "- 5"] round_even_def power_int_minus)

lemma ref_op_17:
  "dmul (Dfin False (3553621580972029 / 35184372088832)) (Dfin False (1963569437533535 / 36028797018963968)) = (Dfin False (6197516037215215 / 1125899906842624))"
  by (simp add: dsub_def sval_def rnd_eval [of 2] round_even_def power_int_minus)

lemma ref_op_18:
  "dmul (Dfin False (8782019273372467 / 9007199254740992)) (Dfin False (3602879701896397 / 36028797018963968)) = (Dfin False (3512807709348987 / 36028797018963968))"
  by (simp add: dsub_def sval_def rnd_eval [of "- 4"] round_even_def power_int_minus)

lemma ref_op_19:
  "dadd (Dfin False (3512807709348987 / 36028797018963968)) (Dfin False (2622896422980579 / 1152921504606846976)) = (Dfin False (1797386611283565 / 18014398509481984))"
  by (simp add: dsub_def sval_def rnd_eval [of "- 4"] round_even_def power_int_minus)

lemma ref_op_20:
  "ddiv (Dfin False (6197516037215215 / 1125899906842624)) (Dfin False (1797386611283565 / 18014398509481984)) = (Dfin False (1941091216867707 / 35184372088832))"
  by (simp add: dsub_def sval_def rnd_eval [of 5] round_even_def power_int_minus)

lemma ref_op_21:
  "ddiv (Dfin False (45035996273705 / 4503599627370496)) (Dfin False (4548635623644201 / 4503599627370496)) = (Dfin False (11147523830125 / 1125899906842624))"
  by (simp add: dsub_def sval_def rnd_eval [of "- 7"] round_even_def power_int_minus)

lemma ref_op_22:
  "ddiv (Dfin False (1941091216867707 / 35184372088832)) (Dfin False (3602879701896397 / 36028797018963968)) = (Dfin False (4852728042169267 / 8796093022208))"
  by (simp add: dsub_def sval_def rnd_eval [of 9] round_even_def power_int_minus)

lemma ref_op_23:
  "dmul (Dfin False (11147523830125 / 1125899906842624)) (Dfin False (4852728042169267 / 8796093022208)) = (Dfin False (1537497993558581 / 281474976710656))"
  by (simp add: dsub_def sval_def rnd_eval [of 2] round_even_def power_int_minus)

lemma ref_op_24:
  "dmul (Dfin False (11147523830125 / 1125899906842624)) (Dfin False (1941091216867707 / 35184372088832)) = (Dfin False (1229998394846865 / 2251799813685248))"
  by (simp add: dsub_def sval_def rnd_eval [of "- 1"] round_even_def power_int_minus)

lemma ref_op_25:
  "dadd (Dfin False (1229998394846865 / 2251799813685248)) (Dfin False (1537497993558581 / 281474976710656)) = (Dfin False (1691247792914439 / 281474976710656))"
  by (simp add: dsub_def sval_def rnd_eval [of 2] round_even_def power_int_minus)

lemma ref_op_26:
  "ddiv (Dfin False (1)) (Dfin False (45035996273705 / 4503599627370496)) = (Dfin False (3518437208883197 / 35184372088832))"
  by (simp add: dsub_def sval_def rnd_eval [of 6] round_even_def power_int_minus)

lemma ref_op_27:
  "dsub (Dfin False (1)) (Dfin False (20)) = (Dfin True (19))"
  by (simp add: dsub_def sval_def rnd_eval [of 4] round_even_def power_int_minus)

lemma ref_op_28:
  "dmul (Dfin False (8782019273372467 / 9007199254740992)) (Dfin False (20)) = (Dfin False (39 / 2))"
  by (simp add: dsub_def sval_def rnd_eval [of 4] round_even_def power_int_minus)

lemma ref_op_29:
  "dadd (Dfin True (19)) (Dfin False (39 / 2)) = (Dfin False (1 / 2))"
  by (simp add: dsub_def sval_def rnd_eval [of "- 1"] round_even_def power_int_minus)

lemma ref_op_30:
  "dmul (Dfin False (3518437208883197 / 35184372088832)) (Dfin False (1 / 2)) = (Dfin False (3518437208883197 / 70368744177664))"
  by (simp add: dsub_def sval_def rnd_eval [of 5] round_even_def power_int_minus)

lemma ref_op_31:
  "dmul (Dfin False (3518437208883197 / 70368744177664)) (Dfin False (1691247792914439 / 281474976710656)) = (Dfin False (5285149352857617 / 17592186044416))"
  by (simp add: dsub_def sval_def rnd_eval [of 8] round_even_def power_int_minus)

lemma ref_op_32:
  "dmul (Dfin False (4548635623644201 / 4503599627370496)) (Dfin False (1941091216867707 / 35184372088832)) = (Dfin False (61265691532387 / 1099511627776))"
  by (simp add: dsub_def sval_def rnd_eval [of 5] round_even_def power_int_minus)

lemma ref_op_33:
  "dsub (Dfin False (1941091216867707 / 35184372088832)) (Dfin False (61265691532387 / 1099511627776)) = (Dfin True (19410912168677 / 35184372088832))"
  by (simp add: dsub_def sval_def rnd_eval [of "- 1"] round_even_def power_int_minus)

lemma ref_op_34:
  "dsub (Dfin False (1691247792914439 / 281474976710656)) (Dfin False (1537497993558581 / 281474976710656)) = (Dfin False (76874899677929 / 140737488355328))"
  by (simp add: dsub_def sval_def rnd_eval [of "- 1"] round_even_def power_int_minus)

lemma ref_op_35:
  "dmul (Dfin False (4548635623644201 / 4503599627370496)) (Dfin False (76874899677929 / 140737488355328)) = (Dfin False (4969193515181331 / 9007199254740992))"
  by (simp add: dsub_def sval_def rnd_eval [of "- 1"] round_even_def power_int_minus)

lemma ref_op_36:
  "dadd (Dfin True (19410912168677 / 35184372088832)) (Dfin False (4969193515181331 / 9007199254740992)) = (Dfin False (19 / 9007199254740992))"
  by (simp add: dsub_def sval_def rnd_eval [of "- 49"] round_even_def power_int_minus)

lemma ref_op_37:
  "dsub (Dfin False (1)) (Dfin False (3602879701896397 / 36028797018963968)) = (Dfin False (8106479329266893 / 9007199254740992))"
  by (simp add: dsub_def sval_def rnd_eval [of "- 1"] round_even_def power_int_minus)

lemma ref_op_38:
  "dmul (Dfin False (8106479329266893 / 9007199254740992)) (Dfin False (8782019273372467 / 9007199254740992)) = (Dfin False (1975954336508805 / 2251799813685248))"
  by (simp add: dsub_def sval_def rnd_eval [of "- 1"] round_even_def power_int_minus)

lemma ref_op_39:
  "dmul (Dfin False (1975954336508805 / 2251799813685248)) (Dfin False (1691247792914439 / 281474976710656)) = (Dfin False (5936279753129681 / 1125899906842624))"
  by (simp add: dsub_def sval_def rnd_eval [of 2] round_even_def power_int_minus)

lemma ref_op_40:
  "dsub (Dfin False (1691247792914439 / 281474976710656)) (Dfin False (5936279753129681 / 1125899906842624)) = (Dfin False (828711418528075 / 1125899906842624))"
  by (simp add: dsub_def sval_def rnd_eval [of "- 1"] round_even_def power_int_minus)

lemma ref_op_41:
  "dadd (Dfin False (20)) (Dfin False (1941091216867707 / 35184372088832)) = (Dfin False (2644778658644347 / 35184372088832))"
  by (simp add: dsub_def sval_def rnd_eval [of 6] round_even_def power_int_minus)

lemma ref_op_42:
  "ddiv (Dfin False (1941091216867707 / 35184372088832)) (Dfin False (4548635623644201 / 4503599627370496)) = (Dfin False (7687489967792899 / 140737488355328))"
  by (simp add: dsub_def sval_def rnd_eval [of 5] round_even_def power_int_minus)

lemma ref_op_43:
  "dsub (Dfin False (2644778658644347 / 35184372088832)) (Dfin False (7687489967792899 / 140737488355328)) = (Dfin False (2891624666784489 / 140737488355328))"
  by (simp add: dsub_def sval_def rnd_eval [of 4] round_even_def power_int_minus)

lemma ref_op_44:
  "ddiv (Dfin False (3602879701896397 / 36028797018963968)) (Dfin False (2891624666784489 / 140737488355328)) = (Dfin False (2805676661515809 / 576460752303423488))"
  by (simp add: dsub_def sval_def rnd_eval [of "- 8"] round_even_def power_int_minus)

lemma ref_op_45:
  "dadd (Dfin False (1)) (Dfin False (0)) = (Dfin False (1))"
  by (simp add: dsub_def sval_def rnd_eval [of 0] round_even_def power_int_minus)

lemma ref_op_46:
  "dadd (Dfin False (1)) (Dfin False (1941091216867707 / 35184372088832)) = (Dfin False (1976275588956539 / 35184372088832))"
  by (simp add: dsub_def sval_def rnd_eval [of 5] round_even_def power_int_minus)

lemma ref_op_47:
  "dadd (Dfin False (1976275588956539 / 35184372088832)) (Dfin False (39 / 2)) = (Dfin False (2662370844688763 / 35184372088832))"
  by (simp add: dsub_def sval_def rnd_eval [of 6] round_even_def power_int_minus)

lemma ref_op_48:
  "dmul (Dfin False (2662370844688763 / 35184372088832)) (Dfin False (1691247792914439 / 281474976710656)) = (Dfin False (3999226563244581 / 8796093022208))"
  by (simp add: dsub_def sval_def rnd_eval [of 8] round_even_def power_int_minus)

lemma ref_op_49:
  "dmul (Dfin False (4548635623644201 / 4503599627370496)) (Dfin False (5285149352857617 / 17592186044416)) = (Dfin False (5338000846386193 / 17592186044416))"
  by (simp add: dsub_def sval_def rnd_eval [of 8] round_even_def power_int_minus)

lemma ref_op_50:
  "dsub (Dfin False (3999226563244581 / 8796093022208)) (Dfin False (5338000846386193 / 17592186044416)) = (Dfin False (2660452280102969 / 17592186044416))"
  by (simp add: dsub_def sval_def rnd_eval [of 7] round_even_def power_int_minus)

lemma ref_op_51:
  "dmul (Dfin False (2805676661515809 / 576460752303423488)) (Dfin False (2660452280102969 / 17592186044416)) = (Dfin False (6629691348224593 / 9007199254740992))"
  by (simp add: dsub_def sval_def rnd_eval [of "- 1"] round_even_def power_int_minus)

lemma ref_op_52:
  "dsub (Dfin False (828711418528075 / 1125899906842624)) (Dfin False (6629691348224593 / 9007199254740992)) = (Dfin False (7 / 9007199254740992))"
  by (simp add: dsub_def sval_def rnd_eval [of "- 51"] round_even_def power_int_minus)

lemma ref_op_53:
  "dsub (Dfin False (5285149352857617 / 17592186044416)) (Dfin False (5338000846386193 / 17592186044416)) = (Dfin True (51612786649 / 17179869184))"
  by (simp add: dsub_def sval_def rnd_eval [of 1] round_even_def power_int_minus)

lemma ref_op_54:
  "dsub (Dfin False (1691247792914439 / 281474976710656)) (Dfin False (1691247792914439 / 281474976710656)) = (Dfin False (0))"
  by (simp add: dsub_def sval_def rnd_def)

lemma ref_op_55:
  "dmul (Dfin False (1941091216867707 / 35184372088832)) (Dfin False (0)) = (Dfin False (0))"
  by (simp add: dsub_def sval_def rnd_def)

lemma ref_op_56:
  "dsub (Dfin True (51612786649 / 17179869184)) (Dfin False (0)) = (Dfin True (51612786649 / 17179869184))"
  by (simp add: dsub_def sval_def rnd_eval [of 1] round_even_def power_int_minus)

lemma ref_op_57:
  "dmul (Dfin False (8782019273372467 / 9007199254740992)) (Dfin False (1691247792914439 / 281474976710656)) = (Dfin False (824483299045789 / 140737488355328))"
  by (simp add: dsub_def sval_def rnd_eval [of 2] round_even_def power_int_minus)

lemma ref_op_58:
  "dsub (Dfin False (1691247792914439 / 281474976710656)) (Dfin False (824483299045789 / 140737488355328)) = (Dfin False (42281194822861 / 281474976710656))"
  by (simp add: dsub_def sval_def rnd_eval [of "- 3"] round_even_def power_int_minus)

lemma ref_op_59:
  "dmul (Dfin False (20)) (Dfin False (42281194822861 / 281474976710656)) = (Dfin False (211405974114305 / 70368744177664))"
  by (simp add: dsub_def sval_def rnd_eval [of 1] round_even_def power_int_minus)

lemma ref_op_60:
  "dsub (Dfin True (51612786649 / 17179869184)) (Dfin False (211405974114305 / 70368744177664)) = (Dfin True (422811948228609 / 70368744177664))"
  by (simp add: dsub_def sval_def rnd_eval [of 2] round_even_def power_int_minus)

lemma ref_op_61:
  "dmul (Dfin False (1)) (Dfin False (1691247792914439 / 281474976710656)) = (Dfin False (1691247792914439 / 281474976710656))"
  by (simp add: dsub_def sval_def rnd_eval [of 2] round_even_def power_int_minus)

lemma ref_op_62:
  "dadd (Dfin True (422811948228609 / 70368744177664)) (Dfin False (1691247792914439 / 281474976710656)) = (Dfin False (3 / 281474976710656))"
  by (simp add: dsub_def sval_def rnd_eval [of "- 47"] round_even_def power_int_minus)

lemmas ref_fl_ops = ref_op_1 ref_op_2 ref_op_3 ref_op_4 ref_op_5 ref_op_6 ref_op_7 ref_op_8 ref_op_9 ref_op_10 ref_op_11 ref_op_12 ref_op_13 ref_op_14 ref_op_15 ref_op_16 ref_op_17 ref_op_18 ref_op_19 ref_op_20 ref_op_21 ref_op_22 ref_op_23 ref_op_24 ref_op_25 ref_op_26 ref_op_27 ref_op_28 ref_op_29 ref_op_30 ref_op_31 ref_op_32 ref_op_33 ref_op_34 ref_op_35 ref_op_36 ref_op_37 ref_op_38 ref_op_39 ref_op_40 ref_op_41 ref_op_42 ref_op_43 ref_op_44 ref_op_45 ref_op_46 ref_op_47 ref_op_48 ref_op_49 ref_op_50 ref_op_51 ref_op_52 ref_op_53 ref_op_54 ref_op_55 ref_op_56 ref_op_57 ref_op_58 ref_op_59 ref_op_60 ref_op_61 ref_op_62

lemma ref_fl_fields:
  "fl_R ref_fl_params = Dfin False (4548635623644201 / 4503599627370496)"
  "fl_lam ref_fl_params = Dfin False (8782019273372467 / 9007199254740992)"
  "fl_eta ref_fl_params = Dfin False (3602879701896397 / 36028797018963968)"
  "fl_a ref_fl_params = Dfin False (1)"
  "fl_pi ref_fl_params = Dfin False (3602879701896397 / 36028797018963968)"
  "fl_phi ref_fl_params = Dfin False (20)"
  by (simp_all only: ref_fl_params_def fl_params.select_convs lit_1 ref_fl_ops)

lemma fl_den_ref: "fl_den ref_fl_params = Dfin False (1797386611283565 / 18014398509481984)"
  unfolding fl_den_def ref_fl_fields lit_1 ref_fl_ops by (rule refl)

lemma fl_num_ref: "fl_num ref_fl_params = Dfin False (1963569437533535 / 36028797018963968)"
  unfolding fl_num_def ref_fl_fields lit_1 ref_fl_ops by (rule refl)

lemma steady_state_fl_ref: "steady_state_fl ref_fl_params = Inr ref_fl_steady"
  unfolding steady_state_fl_cases fl_den_ref fl_num_ref ref_fl_fields lit_1 ref_fl_ops
    ref_fl_steady_def
  by simp


subsection \<open>The formulas\<close>

text \<open>
  C3 (as amended). For every record of double parameters in which \<open>R\<close>, the computed \<open>R - 1\<close>,
  \<open>\<eta>\<close> and the computed denominator \<open>\<lambda>\<pi> + (1-\<lambda>)(1-R+\<pi>R)\<close> are nonzero, the steady-state
  block returns, and what it returns is the four formulas of lines 114-117 with every operation
  rounded to a double, in the order Python evaluates them: \<open>q*\<close> is
  \<open>(R/(R-1)) * (\<pi>a - (1-\<lambda>)(1-R+\<pi>R)\<phi>) / (\<lambda>\<pi> + (1-\<lambda>)(1-R+\<pi>R))\<close>, \<open>\<nu> = ((R-1)/R) * (q*/\<eta>)\<close>,
  \<open>K* = ((R-1)/R) * q* + \<nu>\<close> and \<open>B* = (1/(R-1)) * (a - \<phi> + \<lambda>\<phi>) * K*\<close>. The block is four
  assignments: a function of the parameters, with no loop and no state.
\<close>

theorem steady_state_fl_formulas:
  assumes "\<not> is_zero (fl_R p)" and "\<not> is_zero (dsub (fl_R p) (lit 1))"
    and "\<not> is_zero (fl_eta p)" and "\<not> is_zero (fl_den p)"
  shows "\<exists>ss. steady_state_fl p = Inr ss
      \<and> fl_q_star ss = ddiv (dmul (ddiv (fl_R p) (dsub (fl_R p) (lit 1))) (fl_num p)) (fl_den p)
      \<and> fl_nu ss = dmul (ddiv (dsub (fl_R p) (lit 1)) (fl_R p)) (ddiv (fl_q_star ss) (fl_eta p))
      \<and> fl_K_star ss = dadd (dmul (ddiv (dsub (fl_R p) (lit 1)) (fl_R p)) (fl_q_star ss)) (fl_nu ss)
      \<and> fl_B_star ss = dmul (dmul (ddiv (lit 1) (dsub (fl_R p) (lit 1)))
            (dadd (dsub (fl_a p) (fl_phi p)) (dmul (fl_lam p) (fl_phi p)))) (fl_K_star ss)"
  using assms by (simp add: steady_state_fl_cases)

text \<open>
  The script's own parameters: the four hypotheses hold, and the formulas give the doubles
  \<open>55.16913605...\<close>, \<open>5.46228079...\<close>, \<open>6.00850887...\<close> and \<open>300.42544349...\<close>, each within
  \<open>10\<^sup>-\<^sup>1\<^sup>2\<close> of the exact values \<open>220180/3991\<close>, \<open>21800/3991\<close>, \<open>23980/3991\<close> and
  \<open>1199000/3991\<close>.
\<close>

theorem steady_state_fl_formulas_witness:
  "\<not> is_zero (fl_R ref_fl_params) \<and> \<not> is_zero (dsub (fl_R ref_fl_params) (lit 1))
   \<and> \<not> is_zero (fl_eta ref_fl_params) \<and> \<not> is_zero (fl_den ref_fl_params)
   \<and> steady_state_fl ref_fl_params = Inr ref_fl_steady
   \<and> fl_q_star ref_fl_steady = ddiv (dmul (ddiv (fl_R ref_fl_params) (dsub (fl_R ref_fl_params) (lit 1)))
        (fl_num ref_fl_params)) (fl_den ref_fl_params)
   \<and> \<bar>dval (fl_q_star ref_fl_steady) - q_star ref_steady\<bar> < 1 / 10 ^ 12
   \<and> \<bar>dval (fl_nu ref_fl_steady) - nu ref_steady\<bar> < 1 / 10 ^ 12
   \<and> \<bar>dval (fl_K_star ref_fl_steady) - K_star ref_steady\<bar> < 1 / 10 ^ 12
   \<and> \<bar>dval (fl_B_star ref_fl_steady) - B_star ref_steady\<bar> < 1 / 10 ^ 12"
proof -
  have h: "\<not> is_zero (fl_R ref_fl_params)" "\<not> is_zero (dsub (fl_R ref_fl_params) (lit 1))"
    "\<not> is_zero (fl_eta ref_fl_params)" "\<not> is_zero (fl_den ref_fl_params)"
    unfolding fl_den_ref ref_fl_fields lit_1 ref_fl_ops by simp_all
  from steady_state_fl_formulas [OF h] obtain ss where
    ss: "steady_state_fl ref_fl_params = Inr ss"
    and q: "fl_q_star ss = ddiv (dmul (ddiv (fl_R ref_fl_params) (dsub (fl_R ref_fl_params) (lit 1)))
        (fl_num ref_fl_params)) (fl_den ref_fl_params)"
    by blast
  from ss have e: "ss = ref_fl_steady"
    by (simp add: steady_state_fl_ref)
  have b: "\<bar>dval (fl_q_star ref_fl_steady) - q_star ref_steady\<bar> < 1 / 10 ^ 12"
    "\<bar>dval (fl_nu ref_fl_steady) - nu ref_steady\<bar> < 1 / 10 ^ 12"
    "\<bar>dval (fl_K_star ref_fl_steady) - K_star ref_steady\<bar> < 1 / 10 ^ 12"
    "\<bar>dval (fl_B_star ref_fl_steady) - B_star ref_steady\<bar> < 1 / 10 ^ 12"
    by (simp_all add: ref_fl_steady_def ref_steady_def sval_def)
  show ?thesis
    using h ss q b unfolding e by simp
qed

text \<open>The operations of the denominator and of \<open>R - 1\<close> for \<open>R = 0.0\<close>.\<close>

lemma rz_op_1:
  "lit (975 / 1000) = (Dfin False (8782019273372467 / 9007199254740992))"
  by (simp add: lit_def rnd_eval [of "- 1"] round_even_def power_int_minus)

lemma rz_op_2:
  "lit (1 / 10) = (Dfin False (3602879701896397 / 36028797018963968))"
  by (simp add: lit_def rnd_eval [of "- 4"] round_even_def power_int_minus)

lemma rz_op_3:
  "dmul (Dfin False (8782019273372467 / 9007199254740992)) (Dfin False (3602879701896397 / 36028797018963968)) = (Dfin False (3512807709348987 / 36028797018963968))"
  by (simp add: dsub_def sval_def rnd_eval [of "- 4"] round_even_def power_int_minus)

lemma rz_op_4:
  "dsub (Dfin False (1)) (Dfin False (8782019273372467 / 9007199254740992)) = (Dfin False (225179981368525 / 9007199254740992))"
  by (simp add: dsub_def sval_def rnd_eval [of "- 6"] round_even_def power_int_minus)

lemma rz_op_5:
  "dsub (Dfin False (1)) (Dfin False (0)) = (Dfin False (1))"
  by (simp add: dsub_def sval_def rnd_eval [of 0] round_even_def power_int_minus)

lemma rz_op_6:
  "dmul (Dfin False (3602879701896397 / 36028797018963968)) (Dfin False (0)) = (Dfin False (0))"
  by (simp add: dsub_def sval_def rnd_def)

lemma rz_op_7:
  "dadd (Dfin False (1)) (Dfin False (0)) = (Dfin False (1))"
  by (simp add: dsub_def sval_def rnd_eval [of 0] round_even_def power_int_minus)

lemma rz_op_8:
  "dmul (Dfin False (225179981368525 / 9007199254740992)) (Dfin False (1)) = (Dfin False (225179981368525 / 9007199254740992))"
  by (simp add: dsub_def sval_def rnd_eval [of "- 6"] round_even_def power_int_minus)

lemma rz_op_9:
  "dadd (Dfin False (3512807709348987 / 36028797018963968)) (Dfin False (225179981368525 / 9007199254740992)) = (Dfin False (4413527634823087 / 36028797018963968))"
  by (simp add: dsub_def sval_def rnd_eval [of "- 4"] round_even_def power_int_minus)

lemma rz_op_10:
  "dsub (Dfin False (0)) (Dfin False (1)) = (Dfin True (1))"
  by (simp add: dsub_def sval_def rnd_eval [of 0] round_even_def power_int_minus)

lemmas zero_R_ops = rz_op_1 rz_op_2 rz_op_3 rz_op_4 rz_op_5 rz_op_6 rz_op_7 rz_op_8 rz_op_9 rz_op_10

lemma zero_R_fields:
  "fl_R zero_R_fl_params = Dfin False 0"
  "fl_lam zero_R_fl_params = Dfin False (8782019273372467 / 9007199254740992)"
  "fl_eta zero_R_fl_params = Dfin False (3602879701896397 / 36028797018963968)"
  "fl_pi zero_R_fl_params = Dfin False (3602879701896397 / 36028797018963968)"
  by (simp_all only: zero_R_fl_params_def fl_params.select_convs lit_0 zero_R_ops ref_op_1 ref_op_2 ref_op_3 ref_op_4 ref_op_5 ref_op_6)

lemma fl_den_zero_R: "fl_den zero_R_fl_params = Dfin False (4413527634823087 / 36028797018963968)"
  unfolding fl_den_def zero_R_fields lit_1 zero_R_ops by (rule refl)

text \<open>
  C3 as stated fails for \<open>R = 0.0\<close>: the three conditions of the claim hold, \<open>R \<noteq> 1\<close>,
  \<open>\<eta> \<noteq> 0\<close> and a nonzero denominator, and the block raises at the division by \<open>R\<close> of
  line 115.
\<close>

theorem steady_state_fl_R_zero_counterexample:
  "fl_R zero_R_fl_params \<noteq> lit 1 \<and> \<not> is_zero (dsub (fl_R zero_R_fl_params) (lit 1))
   \<and> \<not> is_zero (fl_eta zero_R_fl_params) \<and> \<not> is_zero (fl_den zero_R_fl_params)
   \<and> steady_state_fl zero_R_fl_params = Inl ZeroDivisionError"
  unfolding steady_state_fl_cases fl_den_zero_R zero_R_fields lit_1 zero_R_ops by simp

subsection \<open>The divisions that raise\<close>



















































section \<open>The residuals in double arithmetic\<close>







section \<open>The guess grid\<close>

lemma length_linspace [simp]: "length (linspace a b n) = n"
  by (simp add: linspace_def)

lemma linspace_nth:
  assumes "2 \<le> n" "i < n"
  shows "linspace a b n ! i = real i * ((b - a) / real (n - 1)) + a"
proof (cases "i = n - 1")
  case True
  with assms have "linspace a b n ! i = b"
    by (simp add: linspace_def)
  moreover from assms True have "real i * ((b - a) / real (n - 1)) + a = b"
    by simp
  ultimately show ?thesis by simp
next
  case False
  with assms show ?thesis
    by (simp add: linspace_def)
qed

lemma linspace_first:
  assumes "2 \<le> n"
  shows "linspace a b n ! 0 = a"
  using assms by (simp add: linspace_def)

lemma linspace_last:
  assumes "2 \<le> n"
  shows "linspace a b n ! (n - 1) = b"
  using assms by (simp add: linspace_def)

lemma linspace_const_nth:
  assumes "i < n"
  shows "linspace a a n ! i = a"
proof (cases "2 \<le> n")
  case True
  from linspace_nth [OF True assms] show ?thesis by simp
next
  case False
  with assms have "n = 1" "i = 0" by auto
  then show ?thesis by (simp add: linspace_def)
qed

lemma linspace_strict_mono:
  assumes "a < b"
  shows "sorted_wrt (<) (linspace a b n)"
proof (cases "2 \<le> n")
  case True
  have step: "0 < (b - a) / real (n - 1)"
    using assms True by simp
  show ?thesis
    unfolding sorted_wrt_iff_nth_less
  proof (intro allI impI)
    fix i j
    assume ij: "i < j" "j < length (linspace a b n)"
    then have "j < n" "i < n" by simp_all
    with True have "linspace a b n ! i = real i * ((b - a) / real (n - 1)) + a"
      "linspace a b n ! j = real j * ((b - a) / real (n - 1)) + a"
      by (simp_all add: linspace_nth)
    moreover have "real i * ((b - a) / real (n - 1)) < real j * ((b - a) / real (n - 1))"
      using ij(1) step by (intro mult_strict_right_mono) simp_all
    ultimately show "linspace a b n ! i < linspace a b n ! j" by simp
  qed
next
  case False
  then have "n = 0 \<or> n = 1" by auto
  then show ?thesis by (auto simp add: linspace_def)
qed

lemma linspace_eq_map:
  assumes "2 \<le> n"
  shows "linspace a b n = map (\<lambda>i. real i * ((b - a) / real (n - 1)) + a) [0..<n]"
  by (rule nth_equalityI) (simp_all add: linspace_nth assms)

lemma guess_grid_general:
  assumes "0 < q_star ss" "2 \<le> n"
  shows "length (q_vec_of ss n) = n"
    and "sorted_wrt (<) (q_vec_of ss n)"
    and "q_vec_of ss n ! 0 = q_star ss * (10037 / 10000 - 5 / 10000)"
    and "q_vec_of ss n ! (n - 1) = q_star ss * (10037 / 10000 + 5 / 10000)"
proof -
  show "length (q_vec_of ss n) = n" by (simp add: q_vec_of_def)
  show "sorted_wrt (<) (q_vec_of ss n)"
    unfolding q_vec_of_def using assms(1) by (intro linspace_strict_mono) simp
  show "q_vec_of ss n ! 0 = q_star ss * (10037 / 10000 - 5 / 10000)"
    unfolding q_vec_of_def by (rule linspace_first [OF assms(2)])
  show "q_vec_of ss n ! (n - 1) = q_star ss * (10037 / 10000 + 5 / 10000)"
    unfolding q_vec_of_def by (rule linspace_last [OF assms(2)])
qed

text \<open>
  C5. The guess grid of the script has exactly 1000 entries, is strictly increasing, starts at
  \<open>q* (1.0037 - 0.0005)\<close>, ends at \<open>q* (1.0037 + 0.0005)\<close> and is evenly spaced: entry \<open>i\<close> is
  the first entry plus \<open>i\<close> times a 999th of the distance from the first to the last. (It is
  increasing because the steady-state price of the script's parameters is positive;
  \<open>guess_grid_general\<close> covers every positive steady-state price.)
\<close>

theorem guess_grid:
  "\<exists>ss. steady_state ref_params = Inr ss
     \<and> length (q_vec_of ss trials) = 1000
     \<and> sorted_wrt (<) (q_vec_of ss trials)
     \<and> hd (q_vec_of ss trials) = q_star ss * (10037 / 10000 - 5 / 10000)
     \<and> last (q_vec_of ss trials) = q_star ss * (10037 / 10000 + 5 / 10000)
     \<and> q_vec_of ss trials =
         map (\<lambda>i. hd (q_vec_of ss trials)
                + real i * ((last (q_vec_of ss trials) - hd (q_vec_of ss trials)) / 999))
           [0..<1000]"
proof -
  define ss where "ss = ref_steady"
  have ss: "steady_state ref_params = Inr ss"
    by (simp add: steady_state_ref ss_def)
  have pos: "0 < q_star ss" by (simp add: ss_def ref_steady_def)
  have n: "2 \<le> trials" by (simp add: trials_def)
  note g = guess_grid_general [OF pos n]
  have len: "length (q_vec_of ss trials) = 1000"
    using g(1) by (simp add: trials_def)
  have ne: "q_vec_of ss trials \<noteq> []"
    using len by auto
  have h: "hd (q_vec_of ss trials) = q_star ss * (10037 / 10000 - 5 / 10000)"
    using g(3) ne by (simp add: hd_conv_nth)
  have l: "last (q_vec_of ss trials) = q_star ss * (10037 / 10000 + 5 / 10000)"
    using g(4) ne g(1) by (simp add: last_conv_nth)
  have m: "q_vec_of ss trials =
         map (\<lambda>i. hd (q_vec_of ss trials)
                + real i * ((last (q_vec_of ss trials) - hd (q_vec_of ss trials)) / 999))
           [0..<1000]"
    unfolding h l unfolding q_vec_of_def
    by (subst linspace_eq_map) (simp_all add: trials_def add.commute)
  from ss len g(2) h l m show ?thesis by blast
qed

section \<open>The loop, row by row\<close>

lemma solve_step_row:
  "solve_step fsolve p ss Dt s t M = set_row M s (row_step fsolve p ss Dt t (get_row M s))"
  by (simp add: solve_step_def store_def set_row_def row_step_def get_row_def split: prod.splits)

lemma rows_set_row [simp]: "rows (set_row M s r) n = rows M n"
  by (cases r) (simp add: rows_def set_row_def)

lemma get_set_row_same:
  "rows M n \<Longrightarrow> s < n \<Longrightarrow> get_row (set_row M s r) s = r"
  by (cases r) (simp add: rows_def set_row_def get_row_def)

lemma get_set_row_other:
  "s' \<noteq> s \<Longrightarrow> get_row (set_row M s r) s' = get_row M s'"
  by (cases r) (simp add: set_row_def get_row_def)

lemma set_set_row [simp]: "set_row (set_row M s r) s r' = set_row M s r'"
  by (cases r, cases r') (simp add: set_row_def)

lemma set_get_row [simp]: "set_row M s (get_row M s) = M"
  by (simp add: set_row_def get_row_def)

lemma fold_solve_step:
  assumes "rows M n" "s < n"
  shows "fold (solve_step fsolve p ss Dt s) ts M
    = set_row M s (fold (row_step fsolve p ss Dt) ts (get_row M s))"
  using assms
proof (induction ts arbitrary: M)
  case Nil
  show ?case by simp
next
  case (Cons t ts)
  let ?M = "set_row M s (row_step fsolve p ss Dt t (get_row M s))"
  have "rows ?M n" using Cons.prems by simp
  from Cons.IH [OF this Cons.prems(2)] show ?case
    using Cons.prems by (simp add: solve_step_row get_set_row_same)
qed

lemma solve_row_row:
  assumes "rows M n" "s < n"
  shows "solve_row fsolve p ss Dt np s M
    = set_row M s (fold (row_step fsolve p ss Dt) [1..<np - 1] (get_row M s))"
  unfolding solve_row_def by (rule fold_solve_step [OF assms])

lemma fold_solve_row:
  assumes "rows M n" "\<forall>s\<in>set sl. s < n" "distinct sl"
  shows "rows (fold (solve_row fsolve p ss Dt np) sl M) n
    \<and> get_row (fold (solve_row fsolve p ss Dt np) sl M) s
       = (if s \<in> set sl then fold (row_step fsolve p ss Dt) [1..<np - 1] (get_row M s)
          else get_row M s)"
  using assms
proof (induction sl arbitrary: M)
  case Nil
  then show ?case by simp
next
  case (Cons a sl)
  let ?M = "solve_row fsolve p ss Dt np a M"
  have a: "a < n" using Cons.prems by simp
  have M': "?M = set_row M a (fold (row_step fsolve p ss Dt) [1..<np - 1] (get_row M a))"
    by (rule solve_row_row [OF Cons.prems(1) a])
  have r: "rows ?M n" using Cons.prems(1) by (simp add: M')
  have IH: "rows (fold (solve_row fsolve p ss Dt np) sl ?M) n
    \<and> get_row (fold (solve_row fsolve p ss Dt np) sl ?M) s
       = (if s \<in> set sl then fold (row_step fsolve p ss Dt) [1..<np - 1] (get_row ?M s)
          else get_row ?M s)"
    using Cons.prems by (intro Cons.IH [OF r]) simp_all
  have other: "s \<noteq> a \<Longrightarrow> get_row ?M s = get_row M s"
    by (simp add: M' get_set_row_other)
  have same: "get_row ?M a = fold (row_step fsolve p ss Dt) [1..<np - 1] (get_row M a)"
    by (simp add: M' get_set_row_same [OF Cons.prems(1) a])
  show ?case
  proof (cases "s = a")
    case True
    with Cons.prems(3) have "s \<notin> set sl" by simp
    with IH True same show ?thesis by simp
  next
    case False
    with IH other show ?thesis by simp
  qed
qed

lemma solve_all_row:
  assumes "rows M nt" "s < nt"
  shows "get_row (solve_all fsolve p ss Dt np nt M) s
    = fold (row_step fsolve p ss Dt) [1..<np - 1] (get_row M s)"
  using fold_solve_row [of M nt "[0..<nt]" fsolve p ss Dt np s] assms
  by (simp add: solve_all_def)


lemma row_inv_init:
  assumes "length q0 = np" "length K0 = np" "length B0 = np"
  shows "row_inv np fsolve p ss Dt (q0, K0, B0) 1 (q0, K0, B0)"
  using assms by (simp add: row_inv_def)

lemma row_inv_step:
  assumes "row_inv np fsolve p ss Dt r0 m r" "1 \<le> m" "m + 1 < np"
  shows "row_inv np fsolve p ss Dt r0 (Suc m) (row_step fsolve p ss Dt m r)"
proof -
  obtain q0 K0 B0 where r0: "r0 = (q0, K0, B0)" by (cases r0)
  obtain q K B where r: "r = (q, K, B)" by (cases r)
  obtain a b c where sol: "fst (fsolve (f p (nu ss) (q ! m) (K ! (m - 1)) (B ! (m - 1)) (Dt ! m))
                (q_star ss, K_star ss, B_star ss)) = (a, b, c)"
    by (metis prod_cases3)
  have step: "row_step fsolve p ss Dt m r = (q[m + 1 := a], K[m := b], B[m := c])"
    using sol by (simp add: row_step_def r)
  from assms(1) have len: "length q = np" "length K = np" "length B = np"
    and old: "\<And>t. 1 \<le> t \<Longrightarrow> t < m \<Longrightarrow> solved_at fsolve p ss Dt (q, K, B) t"
    and fq: "\<And>j. j \<le> 1 \<or> m < j \<Longrightarrow> q ! j = q0 ! j"
    and fK: "\<And>j. j = 0 \<or> m \<le> j \<Longrightarrow> K ! j = K0 ! j \<and> B ! j = B0 ! j"
    by (auto simp add: row_inv_def r0 r)
  have new: "solved_at fsolve p ss Dt (q[m + 1 := a], K[m := b], B[m := c]) t"
    if t: "1 \<le> t" "t < Suc m" for t
  proof (cases "t = m")
    case True
    with assms(2,3) len sol show ?thesis
      by (simp add: solved_at_def)
  next
    case False
    with t have "t < m" by simp
    from old [OF t(1) this] t(1) \<open>t < m\<close> show ?thesis
      by (simp add: solved_at_def)
  qed
  show ?thesis
    unfolding step r0 row_inv_def
    using len new fq fK assms(2) by simp
qed

lemma row_inv_loop:
  assumes "length q0 = np" "length K0 = np" "length B0 = np" "1 \<le> m" "m < np"
  shows "row_inv np fsolve p ss Dt (q0, K0, B0) m
    (fold (row_step fsolve p ss Dt) [1..<m] (q0, K0, B0))"
  using assms(4,5)
proof (induction m rule: nat_induct_at_least)
  case base
  show ?case using row_inv_init [OF assms(1-3)] by simp
next
  case (Suc k)
  then have "row_inv np fsolve p ss Dt (q0, K0, B0) k
    (fold (row_step fsolve p ss Dt) [1..<k] (q0, K0, B0))" by simp
  from row_inv_step [OF this] Suc show ?case by simp
qed


lemma length_set_col [simp]: "length (set_col j v m) = min (length m) (length v)"
  by (simp add: set_col_def)

lemma set_col_nth:
  assumes "s < length m" "s < length v"
  shows "set_col j v m ! s = (m ! s)[j := v ! s]"
  using assms by (simp add: set_col_def)

lemma rows_init_mats:
  assumes "length qv = nt"
  shows "rows (init_mats ss np nt qv) nt"
  using assms by (simp add: rows_def init_mats_def zeros2_def)

lemma get_row_init_mats:
  assumes "s < nt" "length qv = nt"
  shows "get_row (init_mats ss np nt qv) s =
    ((zeros np)[1 := qv ! s, 0 := q_star ss], (zeros np)[0 := K_star ss], (zeros np)[0 := B_star ss])"
  using assms
  by (simp add: get_row_def init_mats_def zeros2_def set_col_nth linspace_const_nth)

lemma simulate_row:
  assumes "s < nt" "length qv = nt"
  shows "get_row (simulate fsolve p ss Dt np nt qv) s =
    fold (row_step fsolve p ss Dt) [1..<np - 1]
      ((zeros np)[1 := qv ! s, 0 := q_star ss], (zeros np)[0 := K_star ss], (zeros np)[0 := B_star ss])"
  unfolding simulate_def
  by (simp add: solve_all_row [OF rows_init_mats [OF assms(2)] assms(1)]
      get_row_init_mats [OF assms])

lemma simulate_rows:
  assumes "length qv = nt"
  shows "rows (simulate fsolve p ss Dt np nt qv) nt"
  unfolding simulate_def solve_all_def
  using fold_solve_row [of "init_mats ss np nt qv" nt "[0..<nt]" fsolve p ss Dt np 0]
    rows_init_mats [OF assms]
  by simp

lemma simulate_inv:
  assumes "2 \<le> np" "s < nt" "length qv = nt"
  shows "row_inv np fsolve p ss Dt
    ((zeros np)[1 := qv ! s, 0 := q_star ss], (zeros np)[0 := K_star ss], (zeros np)[0 := B_star ss])
    (np - 1) (get_row (simulate fsolve p ss Dt np nt qv) s)"
  unfolding simulate_row [OF assms(2,3)]
  using assms(1) by (intro row_inv_loop) (simp_all add: zeros_def)

lemma simulate_facts:
  fixes fsolve :: solver and p :: params and ss :: steady and Dt :: "real list"
  assumes "2 \<le> np" "s < nt" "length qv = nt"
  defines "M \<equiv> simulate fsolve p ss Dt np nt qv"
  shows "length (q_mat M ! s) = np" "length (K_mat M ! s) = np" "length (B_mat M ! s) = np"
    and "q_mat M ! s ! 0 = q_star ss" "q_mat M ! s ! 1 = qv ! s"
    and "K_mat M ! s ! 0 = K_star ss" "B_mat M ! s ! 0 = B_star ss"
    and "K_mat M ! s ! (np - 1) = 0" "B_mat M ! s ! (np - 1) = 0"
    and "\<And>t. 1 \<le> t \<Longrightarrow> t \<le> np - 2 \<Longrightarrow>
      (q_mat M ! s ! (t + 1), K_mat M ! s ! t, B_mat M ! s ! t)
        = fst (fsolve (f p (nu ss) (q_mat M ! s ! t) (K_mat M ! s ! (t - 1))
                         (B_mat M ! s ! (t - 1)) (Dt ! t))
                 (q_star ss, K_star ss, B_star ss))"
proof -
  note inv = simulate_inv [OF assms(1-3), of fsolve p ss Dt,
      unfolded row_inv_def get_row_def, folded M_def, simplified]
  from inv show "length (q_mat M ! s) = np" "length (K_mat M ! s) = np"
    "length (B_mat M ! s) = np" by simp_all
  from inv assms(1) show "q_mat M ! s ! 0 = q_star ss" by (simp add: zeros_def)
  from inv assms(1) show "q_mat M ! s ! 1 = qv ! s" by (simp add: zeros_def)
  from inv assms(1) show "K_mat M ! s ! 0 = K_star ss" by (simp add: zeros_def)
  from inv assms(1) show "B_mat M ! s ! 0 = B_star ss" by (simp add: zeros_def)
  from inv assms(1) show "K_mat M ! s ! (np - 1) = 0" by (simp add: zeros_def)
  from inv assms(1) show "B_mat M ! s ! (np - 1) = 0" by (simp add: zeros_def)
  fix t :: nat
  assume "1 \<le> t" "t \<le> np - 2"
  with inv assms(1) have "solved_at fsolve p ss Dt (q_mat M ! s, K_mat M ! s, B_mat M ! s) t"
    by auto
  then show "(q_mat M ! s ! (t + 1), K_mat M ! s ! t, B_mat M ! s ! t)
        = fst (fsolve (f p (nu ss) (q_mat M ! s ! t) (K_mat M ! s ! (t - 1))
                         (B_mat M ! s ! (t - 1)) (Dt ! t))
                 (q_star ss, K_star ss, B_star ss))"
    by (simp add: solved_at_def)
qed

section \<open>The trajectories\<close>

text \<open>
  C4. For every trial \<open>s\<close> (every guess \<open>qv ! s\<close>) the simulated trajectory has period 0 at
  \<open>(q*, K*, B*)\<close> and the period-1 price at the guess, and for each \<open>t\<close> from 1 to \<open>T - 1\<close>
  (\<open>T = np - 1\<close>) the triple stored at the indices \<open>(t+1, t, t)\<close> of price, landholding and
  debt is what the solver returned for the system built from \<open>K\<^sub>t\<^sub>-\<^sub>1\<close>, \<open>B\<^sub>t\<^sub>-\<^sub>1\<close>, the price
  \<open>q\<^sub>t\<close> and the shock \<open>\<Delta>\<^sub>t\<close>, started at the steady state.
\<close>

theorem simulate_structure:
  assumes "2 \<le> np" "s < nt" "length qv = nt"
    and "M = simulate fsolve p ss Dt np nt qv"
  shows "q_mat M ! s ! 0 = q_star ss \<and> K_mat M ! s ! 0 = K_star ss \<and> B_mat M ! s ! 0 = B_star ss
    \<and> q_mat M ! s ! 1 = qv ! s
    \<and> (\<forall>t. 1 \<le> t \<and> t \<le> np - 2 \<longrightarrow>
          (q_mat M ! s ! (t + 1), K_mat M ! s ! t, B_mat M ! s ! t)
            = fst (fsolve (f p (nu ss) (q_mat M ! s ! t) (K_mat M ! s ! (t - 1))
                             (B_mat M ! s ! (t - 1)) (Dt ! t))
                     (q_star ss, K_star ss, B_star ss)))"
  unfolding assms(4)
  using simulate_facts [OF assms(1-3), where fsolve = fsolve and p = p and ss = ss and Dt = Dt]
  by blast

theorem simulate_structure_witness:
  "2 \<le> periods \<and> 0 < trials \<and> length (q_vec_of ref_steady trials) = trials
   \<and> (1::nat) \<le> 1 \<and> 1 \<le> periods - 2
   \<and> q_mat (simulate (returns_start Converged) ref_params ref_steady
        ((zeros periods)[1 := par_Da ref_params]) periods trials (q_vec_of ref_steady trials)) ! 0 ! 0
       = q_star ref_steady
   \<and> q_mat (simulate (returns_start Converged) ref_params ref_steady
        ((zeros periods)[1 := par_Da ref_params]) periods trials (q_vec_of ref_steady trials)) ! 0 ! 1
       = q_vec_of ref_steady trials ! 0
   \<and> q_mat (simulate (returns_start Converged) ref_params ref_steady
        ((zeros periods)[1 := par_Da ref_params]) periods trials (q_vec_of ref_steady trials)) ! 0 ! 2
       = q_star ref_steady
   \<and> K_mat (simulate (returns_start Converged) ref_params ref_steady
        ((zeros periods)[1 := par_Da ref_params]) periods trials (q_vec_of ref_steady trials)) ! 0 ! 1
       = K_star ref_steady
   \<and> B_mat (simulate (returns_start Converged) ref_params ref_steady
        ((zeros periods)[1 := par_Da ref_params]) periods trials (q_vec_of ref_steady trials)) ! 0 ! 1
       = B_star ref_steady"
proof -
  let ?M = "simulate (returns_start Converged) ref_params ref_steady
        ((zeros periods)[1 := par_Da ref_params]) periods trials (q_vec_of ref_steady trials)"
  have h: "2 \<le> periods" "0 < trials" "length (q_vec_of ref_steady trials) = trials"
    by (simp_all add: periods_def trials_def q_vec_of_def)
  have t: "(1::nat) \<le> 1 \<and> 1 \<le> periods - 2"
    by (simp add: periods_def)
  note st = simulate_structure [OF h refl, where fsolve = "returns_start Converged"
      and p = ref_params and ss = ref_steady and Dt = "(zeros periods)[1 := par_Da ref_params]"]
  from st have init: "q_mat ?M ! 0 ! 0 = q_star ref_steady"
    "q_mat ?M ! 0 ! 1 = q_vec_of ref_steady trials ! 0"
    by blast+
  from st t have "(q_mat ?M ! 0 ! (1 + 1), K_mat ?M ! 0 ! 1, B_mat ?M ! 0 ! 1)
     = (q_star ref_steady, K_star ref_steady, B_star ref_steady)"
    by (simp add: returns_start_def)
  then have "q_mat ?M ! 0 ! 2 = q_star ref_steady" "K_mat ?M ! 0 ! 1 = K_star ref_steady"
    "B_mat ?M ! 0 ! 1 = B_star ref_steady"
    by (simp_all add: numeral_2_eq_2)
  with init h t show ?thesis by blast
qed

text \<open>
  C10. After the loop the last landholding and debt entries (index \<open>T = np - 1\<close>, 100 in the
  script) still hold the 0 of the initialisation, while the last price is the price solved
  at \<open>t = T - 1\<close>, the one the score reads.
\<close>

theorem terminal_entries:
  assumes "3 \<le> np" "s < nt" "length qv = nt"
    and "M = simulate fsolve p ss Dt np nt qv"
  shows "K_mat M ! s ! (np - 1) = 0 \<and> B_mat M ! s ! (np - 1) = 0
    \<and> q_mat M ! s ! (np - 1)
        = fst (fst (fsolve (f p (nu ss) (q_mat M ! s ! (np - 2)) (K_mat M ! s ! (np - 3))
                              (B_mat M ! s ! (np - 3)) (Dt ! (np - 2)))
                      (q_star ss, K_star ss, B_star ss)))"
proof -
  have np: "2 \<le> np" using assms(1) by simp
  note facts = simulate_facts [OF np assms(2,3), where fsolve = fsolve and p = p and ss = ss
      and Dt = Dt, folded assms(4)]
  have e: "np - 2 + 1 = np - 1" "np - 2 - 1 = np - 3" using assms(1) by simp_all
  have "1 \<le> np - 2" "np - 2 \<le> np - 2" using assms(1) by simp_all
  from facts(10) [OF this]
  have "(q_mat M ! s ! (np - 1), K_mat M ! s ! (np - 2), B_mat M ! s ! (np - 2))
        = fst (fsolve (f p (nu ss) (q_mat M ! s ! (np - 2)) (K_mat M ! s ! (np - 3))
                         (B_mat M ! s ! (np - 3)) (Dt ! (np - 2)))
                 (q_star ss, K_star ss, B_star ss))"
    unfolding e .
  then have "q_mat M ! s ! (np - 1)
        = fst (fst (fsolve (f p (nu ss) (q_mat M ! s ! (np - 2)) (K_mat M ! s ! (np - 3))
                              (B_mat M ! s ! (np - 3)) (Dt ! (np - 2)))
                      (q_star ss, K_star ss, B_star ss)))"
    by (metis fst_conv)
  with facts(8,9) show ?thesis by simp
qed

theorem terminal_entries_witness:
  "3 \<le> periods \<and> 0 < trials \<and> length (q_vec_of ref_steady trials) = trials
   \<and> K_mat (simulate (returns_start Converged) ref_params ref_steady
        ((zeros periods)[1 := par_Da ref_params]) periods trials (q_vec_of ref_steady trials))
        ! 0 ! 100 = 0
   \<and> B_mat (simulate (returns_start Converged) ref_params ref_steady
        ((zeros periods)[1 := par_Da ref_params]) periods trials (q_vec_of ref_steady trials))
        ! 0 ! 100 = 0
   \<and> q_mat (simulate (returns_start Converged) ref_params ref_steady
        ((zeros periods)[1 := par_Da ref_params]) periods trials (q_vec_of ref_steady trials))
        ! 0 ! 100 = q_star ref_steady"
proof -
  have h: "3 \<le> periods" "0 < trials" "length (q_vec_of ref_steady trials) = trials"
    by (simp_all add: periods_def trials_def q_vec_of_def)
  have e: "periods - 1 = 100" by (simp add: periods_def)
  from terminal_entries [OF h refl, where fsolve = "returns_start Converged"
      and p = ref_params and ss = ref_steady and Dt = "(zeros periods)[1 := par_Da ref_params]"]
    h
  show ?thesis unfolding e by (simp add: returns_start_def)
qed





section \<open>The selection\<close>

lemma np_le_refl: "x \<noteq> NaN \<Longrightarrow> np_le x x"
  by (cases x) simp_all

lemma np_le_trans: "np_le x y \<Longrightarrow> np_le y z \<Longrightarrow> np_le x z"
  by (cases x; cases y; cases z) simp_all

lemma np_le_total: "x \<noteq> NaN \<Longrightarrow> y \<noteq> NaN \<Longrightarrow> np_le x y \<or> np_le y x"
  by (cases x; cases y) auto

lemma np_le_not_NaN: "np_le x y \<Longrightarrow> x \<noteq> NaN \<and> y \<noteq> NaN"
  by (cases x; cases y) simp_all

lemma fold_np_min2_NaN:
  "NaN \<in> set v \<or> x = NaN \<Longrightarrow> fold np_min2 v x = NaN"
proof (induction v arbitrary: x)
  case Nil
  then show ?case by simp
next
  case (Cons y v)
  show ?case
  proof (cases "x = NaN \<or> y = NaN")
    case True
    then have "np_min2 y x = NaN" by (auto simp add: np_min2_def)
    with Cons.IH [of "np_min2 y x"] show ?thesis by simp
  next
    case False
    with Cons.prems have "NaN \<in> set v" by auto
    with Cons.IH [of "np_min2 y x"] show ?thesis by simp
  qed
qed

lemma fold_np_min2_least:
  assumes "NaN \<notin> set v" "x \<noteq> NaN"
  shows "fold np_min2 v x \<in> set (x # v) \<and> (\<forall>y\<in>set (x # v). np_le (fold np_min2 v x) y)"
  using assms
proof (induction v arbitrary: x)
  case Nil
  then show ?case by (simp add: np_le_refl)
next
  case (Cons y v)
  let ?m = "np_min2 y x"
  from Cons.prems have y: "y \<noteq> NaN" and v: "NaN \<notin> set v" by auto
  have m: "?m = (if np_le y x then y else x)"
    using y Cons.prems(2) by (simp add: np_min2_def)
  then have mN: "?m \<noteq> NaN" using y Cons.prems(2) by simp
  have mle: "np_le ?m x" "np_le ?m y"
    using m np_le_total [OF y Cons.prems(2)] np_le_refl [OF y] np_le_refl [OF Cons.prems(2)]
    by (auto split: if_splits)
  from Cons.IH [OF v mN]
  have IH: "fold np_min2 v ?m \<in> set (?m # v)"
    "\<And>z. z \<in> set (?m # v) \<Longrightarrow> np_le (fold np_min2 v ?m) z" by blast+
  have "np_le (fold np_min2 v ?m) ?m" by (rule IH(2)) simp
  with mle have "np_le (fold np_min2 v ?m) x" "np_le (fold np_min2 v ?m) y"
    by (blast intro: np_le_trans)+
  moreover have "fold np_min2 v ?m \<in> set (x # y # v)"
    using IH(1) m by (auto split: if_splits)
  ultimately show ?case using IH(2) by auto
qed

lemma np_min_Nil: "np_min [] = Inl ValueError"
  by (simp add: np_min_def)

lemma np_min_NaN:
  assumes "NaN \<in> set v"
  shows "np_min v = Inr NaN"
proof (cases v)
  case Nil
  with assms show ?thesis by simp
next
  case (Cons x rest)
  with assms have "NaN \<in> set rest \<or> x = NaN" by auto
  from fold_np_min2_NaN [OF this] Cons show ?thesis by (simp add: np_min_def)
qed

lemma np_min_least:
  assumes "v \<noteq> []" "NaN \<notin> set v"
  shows "\<exists>m. np_min v = Inr m \<and> m \<in> set v \<and> (\<forall>y\<in>set v. np_le m y)"
proof (cases v)
  case Nil
  with assms show ?thesis by simp
next
  case (Cons x rest)
  with assms have "NaN \<notin> set rest" "x \<noteq> NaN" by auto
  from fold_np_min2_least [OF this] Cons show ?thesis by (simp add: np_min_def)
qed

lemma filter_upt_first:
  assumes "filter P [0..<n] = i # rest"
  shows "i < n \<and> P i \<and> (\<forall>j<i. \<not> P j)"
proof -
  from assms obtain us vs where split: "[0..<n] = us @ i # vs"
    and us: "\<forall>u\<in>set us. \<not> P u" and Pi: "P i"
    unfolding filter_eq_Cons_iff by blast
  have "i \<in> set [0..<n]" unfolding split by simp
  then have i: "i < n" by simp
  have "sorted (us @ i # vs)" unfolding split [symmetric] by simp
  then have after: "\<forall>y\<in>set vs. i \<le> y"
    unfolding sorted_append by simp
  have "\<not> P j" if "j < i" for j
  proof -
    from that i have "j \<in> set [0..<n]" by simp
    then have "j \<in> set us \<or> j = i \<or> j \<in> set vs" unfolding split by auto
    with that after have "j \<in> set us" by auto
    with us show ?thesis by blast
  qed
  with i Pi show ?thesis by blast
qed

lemma argwhere_first:
  assumes "argwhere bs = i # rest"
  shows "i < length bs \<and> bs ! i \<and> (\<forall>j<i. \<not> bs ! j)"
proof -
  from assms have "filter (\<lambda>i. bs ! i) [0..<length bs] = i # rest"
    unfolding argwhere_def .
  from filter_upt_first [OF this] show ?thesis .
qed

lemma argwhere_nonempty:
  assumes "k < length bs" "bs ! k"
  shows "argwhere bs \<noteq> []"
proof
  assume "argwhere bs = []"
  then have "filter (\<lambda>i. bs ! i) [0..<length bs] = []"
    unfolding argwhere_def .
  then have "\<forall>x\<in>set [0..<length bs]. \<not> bs ! x"
    unfolding filter_empty_conv .
  moreover have "k \<in> set [0..<length bs]" using assms(1) by simp
  ultimately show False using assms(2) by blast
qed

lemma select_index_first_min:
  assumes "select_index v = Inr i"
  shows "i < length v" "v ! i \<noteq> NaN" "NaN \<notin> set v"
    "\<And>j. j < length v \<Longrightarrow> np_le (v ! i) (v ! j)"
    "\<And>j. j < i \<Longrightarrow> v ! j \<noteq> v ! i"
proof -
  from assms obtain m where m: "np_min v = Inr m"
    by (auto simp add: select_index_def bind_err_def split: sum.splits)
  with assms obtain rest where aw: "argwhere (map (\<lambda>x. np_eq x m) v) = i # rest"
    by (auto simp add: select_index_def bind_err_def split: list.splits)
  from argwhere_first [OF aw] have i: "i < length v" and eq: "np_eq (v ! i) m"
    and first: "\<And>j. j < i \<Longrightarrow> \<not> np_eq (v ! j) m"
    by auto
  from eq have vi: "v ! i = m" "m \<noteq> NaN" by (simp_all add: np_eq_def)
  show "i < length v" by (fact i)
  show "v ! i \<noteq> NaN" using vi by simp
  show noNaN: "NaN \<notin> set v"
  proof
    assume "NaN \<in> set v"
    from np_min_NaN [OF this] m vi show False by simp
  qed
  from i have ne: "v \<noteq> []" by auto
  from np_min_least [OF ne noNaN] m have least: "\<forall>y\<in>set v. np_le m y" by auto
  show "np_le (v ! i) (v ! j)" if "j < length v" for j
    using least that vi by simp
  show "v ! j \<noteq> v ! i" if "j < i" for j
  proof -
    from that i have "v ! j \<in> set v" by simp
    with noNaN have "v ! j \<noteq> NaN" by metis
    with first [OF that] vi show ?thesis by (simp add: np_eq_def)
  qed
qed

lemma select_index_total:
  assumes "v \<noteq> []" "NaN \<notin> set v"
  shows "\<exists>i. select_index v = Inr i"
proof -
  from np_min_least [OF assms] obtain m where m: "np_min v = Inr m" "m \<in> set v" by blast
  from m(2) obtain k where k: "k < length v" "v ! k = m" by (auto simp add: in_set_conv_nth)
  from m(2) assms(2) have "m \<noteq> NaN" by metis
  with k have "map (\<lambda>x. np_eq x m) v ! k" by (simp add: np_eq_def)
  with k(1) have "argwhere (map (\<lambda>x. np_eq x m) v) \<noteq> []"
    by (intro argwhere_nonempty [of k]) simp_all
  then show ?thesis
    using m(1) by (auto simp add: select_index_def bind_err_def split: list.splits)
qed

section \<open>The selected trial\<close>

lemma shooting_InrD:
  assumes "shooting fsolve p np nt = Inr out"
  shows "\<exists>ss. steady_state p = Inr ss \<and> 2 \<le> np
    \<and> select_best ss np nt
         (simulate fsolve p ss ((zeros np)[1 := par_Da p]) np nt (q_vec_of ss nt)) = Inr out"
  using assms
  by (cases "steady_state p") (auto simp add: shooting_def bind_err_def split: if_splits)

lemma select_best_InrD:
  assumes "select_best ss np nt M = Inr out"
  shows "select_index (map (\<lambda>i. score (q_mat M ! i ! (np - 1)) (q_star ss)) [0..<nt])
       = Inr (index out)"
    and "q_vec_abs out = map (\<lambda>i. score (q_mat M ! i ! (np - 1)) (q_star ss)) [0..<nt]"
    and "final out = M" and "q_vec out = q_vec_of ss nt"
proof -
  let ?v = "map (\<lambda>i. score (q_mat M ! i ! (np - 1)) (q_star ss)) [0..<nt]"
  from assms obtain i where i: "select_index ?v = Inr i"
    and out: "out = \<lparr>index = i, q_vec = q_vec_of ss nt, q_vec_abs = ?v, final = M\<rparr>"
    by (cases "select_index ?v") (auto simp add: select_best_def bind_err_def Let_def)
  from i out show "select_index ?v = Inr (index out)" by simp
  from out show "q_vec_abs out = ?v" by simp
  from out show "final out = M" by simp
  from out show "q_vec out = q_vec_of ss nt" by simp
qed

lemma score_finite:
  assumes "qs \<noteq> 0"
  shows "score q_T qs = Fin \<bar>1 - q_T / qs\<bar>"
  using assms by (simp add: score_def)

lemma select_best_total:
  assumes "q_star ss \<noteq> 0" "0 < nt"
  shows "\<exists>out. select_best ss np nt M = Inr out \<and> index out < nt"
proof -
  let ?v = "map (\<lambda>i. score (q_mat M ! i ! (np - 1)) (q_star ss)) [0..<nt]"
  have ne: "?v \<noteq> []" using assms(2) by simp
  have noNaN: "NaN \<notin> set ?v" using assms(1) by (auto simp add: score_finite)
  from select_index_total [OF ne noNaN] obtain i where i: "select_index ?v = Inr i" ..
  from select_index_first_min(1) [OF i] have "i < nt" by simp
  with i show ?thesis by (simp add: select_best_def bind_err_def Let_def)
qed

lemma shooting_total:
  assumes "steady_state p = Inr ss" "q_star ss \<noteq> 0" "2 \<le> np" "0 < nt"
  shows "\<exists>out. shooting fsolve p np nt = Inr out \<and> index out < nt"
  using select_best_total [OF assms(2,4)] assms(1,3)
  by (simp add: shooting_def bind_err_def)

lemma steady_state_neg_price:
  "steady_state (ref_params\<lparr>par_phi := 50\<rparr>) = Inr neg_price_steady"
  by (simp add: steady_state_def bind_err_def py_div_def Let_def ref_params_def
      ss_num_def ss_den_def neg_price_steady_def)

lemma linspace_strict_antimono:
  assumes "b < a"
  shows "sorted_wrt (>) (linspace a b n)"
proof (cases "2 \<le> n")
  case True
  have step: "(b - a) / real (n - 1) < 0"
    using assms True by (simp add: divide_neg_pos)
  show ?thesis
    unfolding sorted_wrt_iff_nth_less
  proof (intro allI impI)
    fix i j
    assume ij: "i < j" "j < length (linspace a b n)"
    then have "j < n" "i < n" by simp_all
    with True have "linspace a b n ! i = real i * ((b - a) / real (n - 1)) + a"
      "linspace a b n ! j = real j * ((b - a) / real (n - 1)) + a"
      by (simp_all add: linspace_nth)
    moreover have "real j * ((b - a) / real (n - 1)) < real i * ((b - a) / real (n - 1))"
      using ij(1) step by (intro mult_strict_right_mono_neg) simp_all
    ultimately show "linspace a b n ! j < linspace a b n ! i" by simp
  qed
next
  case False
  then have "n = 0 \<or> n = 1" by auto
  then show ?thesis by (auto simp add: linspace_def)
qed

lemma q_vec_of_increasing:
  assumes "0 < q_star ss" "i \<le> j" "j < n"
  shows "q_vec_of ss n ! i \<le> q_vec_of ss n ! j"
proof (cases "i = j")
  case True
  then show ?thesis by simp
next
  case False
  with assms(2) have "i < j" by simp
  moreover have "sorted_wrt (<) (q_vec_of ss n)"
    unfolding q_vec_of_def using assms(1) by (intro linspace_strict_mono) simp
  ultimately have "q_vec_of ss n ! i < q_vec_of ss n ! j"
    using assms(3) by (simp add: sorted_wrt_iff_nth_less q_vec_of_def)
  then show ?thesis by simp
qed

lemma q_vec_of_decreasing:
  assumes "q_star ss < 0" "i < j" "j < n"
  shows "q_vec_of ss n ! j < q_vec_of ss n ! i"
proof -
  have "sorted_wrt (>) (q_vec_of ss n)"
    unfolding q_vec_of_def using assms(1) by (intro linspace_strict_antimono) simp
  then show ?thesis
    using assms(2,3) by (simp add: sorted_wrt_iff_nth_less q_vec_of_def)
qed

text \<open>
  C1 (as amended). Whenever the script returns, the selected index is a trial of the grid,
  the scores are \<open>|1 - q\<^sub>T/q*|\<close> of the terminal prices (for \<open>q* \<noteq> 0\<close>; with \<open>q* = 0\<close> NumPy's
  division gives \<^verbatim>\<open>inf\<close> or \<^verbatim>\<open>nan\<close>), the score of the selected trial is at most the score of
  every trial, and no trial of a smaller index has the same score. Among the trials with the
  selected score the selected one has the lowest guess when \<open>q* > 0\<close> (the grid increases) and
  the highest guess when \<open>q* < 0\<close> (the grid decreases). (\<open>shooting_total\<close>: the script does
  return when the steady state is defined with \<open>q* \<noteq> 0\<close> and there are two periods and one
  trial.)
\<close>

theorem selection_minimal:
  assumes "shooting fsolve p np nt = Inr out"
  shows "\<exists>ss. steady_state p = Inr ss
    \<and> index out < nt
    \<and> q_vec_abs out = map (\<lambda>i. score (q_mat (final out) ! i ! (np - 1)) (q_star ss)) [0..<nt]
    \<and> (q_star ss \<noteq> 0 \<longrightarrow>
         (\<forall>i<nt. q_vec_abs out ! i = Fin \<bar>1 - q_mat (final out) ! i ! (np - 1) / q_star ss\<bar>))
    \<and> (\<forall>j<nt. np_le (q_vec_abs out ! index out) (q_vec_abs out ! j))
    \<and> (\<forall>j<index out. q_vec_abs out ! j \<noteq> q_vec_abs out ! index out)
    \<and> q_vec out = q_vec_of ss nt
    \<and> (0 < q_star ss \<longrightarrow>
         (\<forall>j<nt. q_vec_abs out ! j = q_vec_abs out ! index out
            \<longrightarrow> q_vec out ! index out \<le> q_vec out ! j))
    \<and> (q_star ss < 0 \<longrightarrow>
         (\<forall>j<nt. q_vec_abs out ! j = q_vec_abs out ! index out
            \<longrightarrow> q_vec out ! j \<le> q_vec out ! index out))"
proof -
  from shooting_InrD [OF assms] obtain ss where ss: "steady_state p = Inr ss"
    and sb: "select_best ss np nt
         (simulate fsolve p ss ((zeros np)[1 := par_Da p]) np nt (q_vec_of ss nt)) = Inr out"
    by blast
  note d = select_best_InrD [OF sb]
  let ?v = "map (\<lambda>i. score (q_mat (final out) ! i ! (np - 1)) (q_star ss)) [0..<nt]"
  have v: "q_vec_abs out = ?v" using d(2,3) by simp
  have si: "select_index (q_vec_abs out) = Inr (index out)" using d(1,2) by simp
  have len: "length (q_vec_abs out) = nt" by (simp add: v)
  note m = select_index_first_min [OF si]
  have i: "index out < nt" using m(1) len by simp
  have sc: "\<forall>i<nt. q_vec_abs out ! i = Fin \<bar>1 - q_mat (final out) ! i ! (np - 1) / q_star ss\<bar>"
    if "q_star ss \<noteq> 0"
    using that by (simp add: v score_finite)
  have least: "\<forall>j<nt. np_le (q_vec_abs out ! index out) (q_vec_abs out ! j)"
    using m(4) len by simp
  have first: "\<forall>j<index out. q_vec_abs out ! j \<noteq> q_vec_abs out ! index out"
    using m(5) by simp
  have after: "index out \<le> j" if "q_vec_abs out ! j = q_vec_abs out ! index out" for j
    using first that by (meson not_le)
  have up: "\<forall>j<nt. q_vec_abs out ! j = q_vec_abs out ! index out
            \<longrightarrow> q_vec out ! index out \<le> q_vec out ! j" if "0 < q_star ss"
    using q_vec_of_increasing [OF that] after by (simp add: d(4))
  have down: "\<forall>j<nt. q_vec_abs out ! j = q_vec_abs out ! index out
            \<longrightarrow> q_vec out ! j \<le> q_vec out ! index out" if neg: "q_star ss < 0"
  proof (intro allI impI)
    fix j assume j: "j < nt" and tie: "q_vec_abs out ! j = q_vec_abs out ! index out"
    show "q_vec out ! j \<le> q_vec out ! index out"
    proof (cases "j = index out")
      case True
      then show ?thesis by simp
    next
      case False
      with after [OF tie] have "index out < j" by simp
      from q_vec_of_decreasing [OF neg this j] show ?thesis by (simp add: d(4))
    qed
  qed
  from ss i v sc least first d(4) up down show ?thesis by blast
qed

text \<open>A run of three periods and three trials, evaluated.\<close>

lemma up3: "[0..<3] = [0, 1, 2]" "[Suc 0..<2] = [Suc 0]"
  by (simp_all add: upt_rec numeral_2_eq_2 numeral_3_eq_3)

lemma init3: "init_mats ref_steady 3 3 (q_vec_of ref_steady 3) =
  \<lparr>q_mat = [[220180 / 3991, 27610572 / 498875, 0],
            [220180 / 3991, 110497333 / 1995500, 0],
            [220180 / 3991, 55276189 / 997750, 0]],
   K_mat = [[23980 / 3991, 0, 0], [23980 / 3991, 0, 0], [23980 / 3991, 0, 0]],
   B_mat = [[1199000 / 3991, 0, 0], [1199000 / 3991, 0, 0], [1199000 / 3991, 0, 0]]\<rparr>"
  by (simp add: init_mats_def q_vec_of_def linspace_def set_col_def zeros2_def zeros_def up3
      ref_steady_def numeral_3_eq_3)

lemma sim3: "simulate sweep ref_params ref_steady ((zeros 3)[1 := par_Da ref_params]) 3 3
    (q_vec_of ref_steady 3) =
  \<lparr>q_mat = [[220180 / 3991, 27610572 / 498875, 698310557 / 12471875],
            [220180 / 3991, 110497333 / 1995500, 11167409367 / 199550000],
            [220180 / 3991, 55276189 / 997750, 5580924911 / 99775000]],
   K_mat = [[23980 / 3991, 23980 / 3991, 0], [23980 / 3991, 23980 / 3991, 0],
            [23980 / 3991, 23980 / 3991, 0]],
   B_mat = [[1199000 / 3991, 1199000 / 3991, 0], [1199000 / 3991, 1199000 / 3991, 0],
            [1199000 / 3991, 1199000 / 3991, 0]]\<rparr>"
  unfolding simulate_def init3
  by (simp add: solve_all_def solve_row_def solve_step_def store_def up3 sweep_def f_def
      first_eq_def ref_steady_def ref_params_def zeros_def)

lemma q_vec3:
  "q_vec_of ref_steady 3 = [27610572 / 498875, 110497333 / 1995500, 55276189 / 997750]"
  by (simp add: q_vec_of_def linspace_def up3 ref_steady_def numeral_3_eq_3)

lemma scores3:
  "map (\<lambda>i. score ([[220180 / 3991, 27610572 / 498875, 698310557 / 12471875],
            [220180 / 3991, 110497333 / 1995500, 11167409367 / 199550000],
            [220180 / 3991, 55276189 / 997750, 5580924911 / 99775000]] ! i ! 2)
          (q_star ref_steady)) [0..<3]
   = [Fin (10248057 / 688062500), Fin (158409367 / 11009000000), Fin (76424911 / 5504500000)]"
  by (simp add: up3 score_def ref_steady_def)

lemma select3:
  "select_index [Fin (10248057 / 688062500), Fin (158409367 / 11009000000),
     Fin (76424911 / 5504500000)] = Inr 2"
  by (simp add: select_index_def bind_err_def np_min_def np_min2_def np_eq_def argwhere_def up3
      numeral_3_eq_3 upt_rec)

lemma run3:
  "shooting sweep ref_params 3 3 =
     Inr \<lparr>index = 2,
          q_vec = [27610572 / 498875, 110497333 / 1995500, 55276189 / 997750],
          q_vec_abs = [Fin (10248057 / 688062500), Fin (158409367 / 11009000000),
            Fin (76424911 / 5504500000)],
          final =
            \<lparr>q_mat = [[220180 / 3991, 27610572 / 498875, 698310557 / 12471875],
                      [220180 / 3991, 110497333 / 1995500, 11167409367 / 199550000],
                      [220180 / 3991, 55276189 / 997750, 5580924911 / 99775000]],
             K_mat = [[23980 / 3991, 23980 / 3991, 0], [23980 / 3991, 23980 / 3991, 0],
                      [23980 / 3991, 23980 / 3991, 0]],
             B_mat = [[1199000 / 3991, 1199000 / 3991, 0], [1199000 / 3991, 1199000 / 3991, 0],
                      [1199000 / 3991, 1199000 / 3991, 0]]\<rparr>\<rparr>"
proof -
  have "shooting sweep ref_params 3 3 =
    select_best ref_steady 3 3
      (simulate sweep ref_params ref_steady ((zeros 3)[1 := par_Da ref_params]) 3 3
         (q_vec_of ref_steady 3))"
    by (simp add: shooting_def steady_state_ref bind_err_def)
  also have "\<dots> = select_best ref_steady 3 3
            \<lparr>q_mat = [[220180 / 3991, 27610572 / 498875, 698310557 / 12471875],
                      [220180 / 3991, 110497333 / 1995500, 11167409367 / 199550000],
                      [220180 / 3991, 55276189 / 997750, 5580924911 / 99775000]],
             K_mat = [[23980 / 3991, 23980 / 3991, 0], [23980 / 3991, 23980 / 3991, 0],
                      [23980 / 3991, 23980 / 3991, 0]],
             B_mat = [[1199000 / 3991, 1199000 / 3991, 0], [1199000 / 3991, 1199000 / 3991, 0],
                      [1199000 / 3991, 1199000 / 3991, 0]]\<rparr>"
    unfolding sim3 ..
  also have "\<dots> = Inr \<lparr>index = 2,
          q_vec = [27610572 / 498875, 110497333 / 1995500, 55276189 / 997750],
          q_vec_abs = [Fin (10248057 / 688062500), Fin (158409367 / 11009000000),
            Fin (76424911 / 5504500000)],
          final =
            \<lparr>q_mat = [[220180 / 3991, 27610572 / 498875, 698310557 / 12471875],
                      [220180 / 3991, 110497333 / 1995500, 11167409367 / 199550000],
                      [220180 / 3991, 55276189 / 997750, 5580924911 / 99775000]],
             K_mat = [[23980 / 3991, 23980 / 3991, 0], [23980 / 3991, 23980 / 3991, 0],
                      [23980 / 3991, 23980 / 3991, 0]],
             B_mat = [[1199000 / 3991, 1199000 / 3991, 0], [1199000 / 3991, 1199000 / 3991, 0],
                      [1199000 / 3991, 1199000 / 3991, 0]]\<rparr>\<rparr>"
    by (simp add: select_best_def scores3 select3 bind_err_def Let_def q_vec3)
  finally show ?thesis .
qed

theorem selection_minimal_witness:
  "shooting sweep ref_params 3 3 =
     Inr \<lparr>index = 2,
          q_vec = [27610572 / 498875, 110497333 / 1995500, 55276189 / 997750],
          q_vec_abs = [Fin (10248057 / 688062500), Fin (158409367 / 11009000000),
            Fin (76424911 / 5504500000)],
          final =
            \<lparr>q_mat = [[220180 / 3991, 27610572 / 498875, 698310557 / 12471875],
                      [220180 / 3991, 110497333 / 1995500, 11167409367 / 199550000],
                      [220180 / 3991, 55276189 / 997750, 5580924911 / 99775000]],
             K_mat = [[23980 / 3991, 23980 / 3991, 0], [23980 / 3991, 23980 / 3991, 0],
                      [23980 / 3991, 23980 / 3991, 0]],
             B_mat = [[1199000 / 3991, 1199000 / 3991, 0], [1199000 / 3991, 1199000 / 3991, 0],
                      [1199000 / 3991, 1199000 / 3991, 0]]\<rparr>\<rparr>
   \<and> np_le (Fin (76424911 / 5504500000)) (Fin (10248057 / 688062500))
   \<and> np_le (Fin (76424911 / 5504500000)) (Fin (158409367 / 11009000000))
   \<and> Fin (10248057 / 688062500) \<noteq> Fin (76424911 / 5504500000 :: real)
   \<and> Fin (158409367 / 11009000000) \<noteq> Fin (76424911 / 5504500000 :: real)"
proof -
  from selection_minimal [OF run3]
  have le: "\<forall>j<3. np_le ([Fin (10248057 / 688062500), Fin (158409367 / 11009000000),
            Fin (76424911 / 5504500000)] ! 2) ([Fin (10248057 / 688062500), Fin (158409367 / 11009000000),
            Fin (76424911 / 5504500000)] ! j)"
    and first: "\<forall>j<2. [Fin (10248057 / 688062500), Fin (158409367 / 11009000000),
            Fin (76424911 / 5504500000 :: real)] ! j \<noteq> [Fin (10248057 / 688062500), Fin (158409367 / 11009000000),
            Fin (76424911 / 5504500000)] ! 2"
    by auto
  from le have "np_le (Fin (76424911 / 5504500000)) (Fin (10248057 / 688062500))"
    "np_le (Fin (76424911 / 5504500000)) (Fin (158409367 / 11009000000))"
    by (auto dest: spec [of _ 0] spec [of _ 1])
  moreover from first have "Fin (10248057 / 688062500) \<noteq> Fin (76424911 / 5504500000 :: real)"
    "Fin (158409367 / 11009000000) \<noteq> Fin (76424911 / 5504500000 :: real)"
    by (auto dest: spec [of _ 0] spec [of _ 1])
  ultimately show ?thesis using run3 by blast
qed

section \<open>Solves that do not converge\<close>






lemma returns_start_terminal:
  assumes "3 \<le> np" "s < nt" "length qv = nt"
  shows "q_mat (simulate (returns_start st) p ss Dt np nt qv) ! s ! (np - 1) = q_star ss"
proof -
  have np: "2 \<le> np" using assms(1) by simp
  note facts = simulate_facts [OF np assms(2,3), where fsolve = "returns_start st" and p = p
      and ss = ss and Dt = Dt]
  have e: "np - 2 + 1 = np - 1" using assms(1) by simp
  have "1 \<le> np - 2" "np - 2 \<le> np - 2" using assms(1) by simp_all
  from facts(10) [OF this] show ?thesis
    unfolding e by (simp add: returns_start_def)
qed


section \<open>The first index and the guess values\<close>

lemma returns_start_run:
  assumes "steady_state p = Inr ss" "q_star ss \<noteq> 0" "3 \<le> np" "0 < nt"
  shows "\<exists>out. shooting (returns_start st) p np nt = Inr out \<and> index out = 0
    \<and> q_vec out = q_vec_of ss nt \<and> q_vec_abs out = replicate nt (Fin 0)"
proof -
  have np: "2 \<le> np" using assms(3) by simp
  from shooting_total [OF assms(1,2) np assms(4)] obtain out
    where out: "shooting (returns_start st) p np nt = Inr out" "index out < nt"
    by blast
  from shooting_InrD [OF out(1)] assms(1)
  have sb: "select_best ss np nt
      (simulate (returns_start st) p ss ((zeros np)[1 := par_Da p]) np nt (q_vec_of ss nt))
      = Inr out"
    by auto
  note d = select_best_InrD [OF sb]
  have len: "length (q_vec_of ss nt) = nt" by (simp add: q_vec_of_def)
  have v: "q_vec_abs out = replicate nt (Fin 0)"
  proof (rule nth_equalityI)
    show "length (q_vec_abs out) = length (replicate nt (Fin 0 :: npfloat))"
      by (simp add: d(2))
  next
    fix i assume "i < length (q_vec_abs out)"
    then have i: "i < nt" by (simp add: d(2))
    from returns_start_terminal [OF assms(3) i len] assms(2) i
    show "q_vec_abs out ! i = replicate nt (Fin 0) ! i"
      by (simp add: d(2) score_def)
  qed
  have si: "select_index (q_vec_abs out) = Inr (index out)" using d(1,2) by simp
  have "index out = 0"
  proof (rule ccontr)
    assume "index out \<noteq> 0"
    then have "0 < index out" by simp
    from select_index_first_min(5) [OF si this] out(2) assms(4) show False
      by (simp add: v)
  qed
  with out(1) v d(4) show ?thesis by simp
qed

text \<open>
  C1 as stated fails for a negative steady-state price: with \<open>\<phi> = 50\<close>, the other parameters
  of the script and a solver that returns its starting point, all 1000 scores are 0, trial 0
  is selected, and its guess is higher than the guess of trial 999, which has the same score.
\<close>

theorem lowest_guess_counterexample:
  "steady_state (ref_params\<lparr>par_phi := 50\<rparr>) = Inr neg_price_steady
   \<and> map_sum id index
        (shooting (returns_start Converged) (ref_params\<lparr>par_phi := 50\<rparr>) periods trials)
       = Inr 0
   \<and> map_sum id q_vec_abs
        (shooting (returns_start Converged) (ref_params\<lparr>par_phi := 50\<rparr>) periods trials)
       = Inr (replicate trials (Fin 0))
   \<and> map_sum id q_vec
        (shooting (returns_start Converged) (ref_params\<lparr>par_phi := 50\<rparr>) periods trials)
       = Inr (q_vec_of neg_price_steady trials)
   \<and> q_vec_of neg_price_steady trials ! 999 < q_vec_of neg_price_steady trials ! 0"
proof -
  have h: "q_star neg_price_steady \<noteq> 0" "3 \<le> periods" "0 < trials"
    by (simp_all add: neg_price_steady_def periods_def trials_def)
  from returns_start_run [OF steady_state_neg_price h, of Converged] obtain out
    where "shooting (returns_start Converged) (ref_params\<lparr>par_phi := 50\<rparr>) periods trials
       = Inr out" "index out = 0" "q_vec out = q_vec_of neg_price_steady trials"
      "q_vec_abs out = replicate trials (Fin 0)"
    by blast
  moreover have "q_vec_of neg_price_steady trials ! 999 < q_vec_of neg_price_steady trials ! 0"
    by (rule q_vec_of_decreasing) (simp_all add: neg_price_steady_def trials_def)
  ultimately show ?thesis using steady_state_neg_price by simp
qed

section \<open>Two runs with a deterministic solver\<close>

lemma run_loop_deterministic:
  assumes "deterministic S" "run_loop S p ss Dt sts M M1" "run_loop S p ss Dt sts M M2"
  shows "M1 = M2"
  using assms(2,3)
proof (induction arbitrary: M2 rule: run_loop.induct)
  case (run_done M)
  then show ?case by (auto elim: run_loop_NilE)
next
  case (run_step M s t r sts M')
  from run_step.prems obtain r' where
    r': "S (f p (nu ss) (q_mat M ! s ! t) (K_mat M ! s ! (t - 1)) (B_mat M ! s ! (t - 1)) (Dt ! t))
       (q_star ss, K_star ss, B_star ss) r'"
    and rest: "run_loop S p ss Dt sts (store M s t (fst r')) M2"
    by (auto elim: run_loop_ConsE)
  from assms(1) run_step.hyps(1) r' have "r = r'"
    unfolding deterministic_def by blast
  with rest run_step.IH show ?case by simp
qed

lemma deterministic_graph_of: "deterministic (graph_of fsolve)"
  by (simp add: deterministic_def graph_of_def)

lemma run_loop_fold:
  "run_loop (graph_of fsolve) p ss Dt sts M
     (fold (\<lambda>(s, t). solve_step fsolve p ss Dt s t) sts M)"
proof (induction sts arbitrary: M)
  case Nil
  show ?case by (simp add: run_done)
next
  case (Cons a sts)
  obtain s t where a: "a = (s, t)" by (cases a)
  define r where "r = fsolve
    (f p (nu ss) (q_mat M ! s ! t) (K_mat M ! s ! (t - 1)) (B_mat M ! s ! (t - 1)) (Dt ! t))
    (q_star ss, K_star ss, B_star ss)"
  have step: "solve_step fsolve p ss Dt s t M = store M s t (fst r)"
    by (simp add: solve_step_def r_def)
  have call: "graph_of fsolve
      (f p (nu ss) (q_mat M ! s ! t) (K_mat M ! s ! (t - 1)) (B_mat M ! s ! (t - 1)) (Dt ! t))
      (q_star ss, K_star ss, B_star ss) r"
    by (simp add: graph_of_def r_def)
  have rest: "run_loop (graph_of fsolve) p ss Dt sts (store M s t (fst r))
     (fold (\<lambda>(s, t). solve_step fsolve p ss Dt s t) sts (store M s t (fst r)))"
    by (rule Cons.IH)
  have "fold (\<lambda>(s, t). solve_step fsolve p ss Dt s t) (a # sts) M
      = fold (\<lambda>(s, t). solve_step fsolve p ss Dt s t) sts (store M s t (fst r))"
    by (simp add: a step)
  with run_step [OF call rest] show ?case
    unfolding a by simp
qed

lemma fold_concat_rows: "fold g (concat xss) = fold (fold g) xss"
  by (induction xss) simp_all

lemma fold_loop_order:
  "fold (\<lambda>(s, t). solve_step fsolve p ss Dt s t) (loop_order np nt) M
     = solve_all fsolve p ss Dt np nt M"
proof -
  have row: "fold (\<lambda>(s, t). solve_step fsolve p ss Dt s t) (map (\<lambda>t. (s, t)) ts)
      = fold (solve_step fsolve p ss Dt s) ts" for s ts
    by (simp add: fold_map comp_def)
  have "fold (\<lambda>(s, t). solve_step fsolve p ss Dt s t) (loop_order np nt)
      = fold (\<lambda>s. fold (\<lambda>(s, t). solve_step fsolve p ss Dt s t) (map (\<lambda>t. (s, t)) [1..<np - 1]))
          [0..<nt]"
    unfolding loop_order_def fold_concat_rows fold_map comp_def ..
  also have "\<dots> = fold (\<lambda>s. fold (solve_step fsolve p ss Dt s) [1..<np - 1]) [0..<nt]"
    unfolding row ..
  also have "\<dots> = fold (solve_row fsolve p ss Dt np) [0..<nt]"
    by (simp add: solve_row_def [abs_def])
  finally show ?thesis by (simp add: solve_all_def)
qed

lemma run_script_functional:
  "run_script (graph_of fsolve) p np nt (shooting fsolve p np nt)"
proof (cases "steady_state p")
  case (Inl e)
  then have "shooting fsolve p np nt = Inl e" by (simp add: shooting_def bind_err_def)
  with run_no_steady [OF Inl] show ?thesis by simp
next
  case (Inr ss)
  show ?thesis
  proof (cases "np < 2")
    case True
    with Inr have "shooting fsolve p np nt = Inl IndexError"
      by (simp add: shooting_def bind_err_def)
    with run_short [OF Inr True] show ?thesis by simp
  next
    case False
    then have np: "2 \<le> np" by simp
    let ?Dt = "(zeros np)[1 := par_Da p]"
    let ?M0 = "init_mats ss np nt (q_vec_of ss nt)"
    have "run_loop (graph_of fsolve) p ss ?Dt (loop_order np nt) ?M0
        (simulate fsolve p ss ?Dt np nt (q_vec_of ss nt))"
      using run_loop_fold [of fsolve p ss ?Dt "loop_order np nt" ?M0]
      by (simp add: fold_loop_order simulate_def)
    from run_search [OF Inr np this]
    show ?thesis using Inr False by (simp add: shooting_def bind_err_def)
  qed
qed

text \<open>
  C9. Two runs of the script with the same parameters, numbers of periods and trials (hence
  the same grid, shock schedule and starting point of the solver) and a solver that is
  deterministic, returning the same result whenever it is called with the same residual
  function and starting point, end in identical results: the same error, or the same
  selected index, guesses, scores and matrices. (\<open>run_script_functional\<close>: the outcome of
  \<open>shooting\<close> is a run, for the solver as a function.)
\<close>

theorem two_runs_identical:
  assumes "deterministic S" "run_script S p np nt r1" "run_script S p np nt r2"
  shows "r1 = r2"
  using assms(2)
proof (cases rule: run_script.cases)
  case (run_no_steady e)
  with assms(3) show ?thesis by (auto elim: run_script.cases)
next
  case (run_short ss)
  with assms(3) show ?thesis by (auto elim: run_script.cases)
next
  case (run_search ss M)
  from assms(3) show ?thesis
  proof (cases rule: run_script.cases)
    case (run_no_steady e')
    with run_search show ?thesis by simp
  next
    case (run_short ss')
    with run_search show ?thesis by simp
  next
    case other: (run_search ss' M')
    from run_search(2) other(2) have ss: "ss' = ss" by simp
    from run_loop_deterministic [OF assms(1) run_search(4) other(4) [unfolded ss]]
    show ?thesis using run_search(1) other(1) ss by simp
  qed
qed

theorem two_runs_identical_witness:
  "deterministic (graph_of sweep)
   \<and> run_script (graph_of sweep) ref_params 3 3 (shooting sweep ref_params 3 3)
   \<and> \<not> run_script (graph_of sweep) ref_params 3 3 (Inl IndexError)"
proof -
  have "\<not> run_script (graph_of sweep) ref_params 3 3 (Inl IndexError)"
  proof
    assume "run_script (graph_of sweep) ref_params 3 3 (Inl IndexError)"
    from two_runs_identical [OF deterministic_graph_of run_script_functional this]
    show False by (simp add: run3)
  qed
  with deterministic_graph_of run_script_functional show ?thesis by blast
qed

end
